theory Spec2Isabelle
  imports Complex_Main "HOL-Library.Multiset" "HOL-Library.Sublist"
begin

section \<open>Python primitives used by the scoring engine\<close>

text \<open>
  Numbers. Scores, weights and durations are Python floats in the source; they are
  modelled as exact rationals. Every score the detector stores has gone through
  \<open>round(x, 2)\<close>, which is modelled as correct rounding of the exact value to two
  decimals, ties to even. This rounding is used for the phrase score, the behavioural
  score and the pre-AI score; the recombined score, whose exact value can lie halfway
  between two two-decimal values, has a rounding of its own (see \<open>float_round2\<close>).
\<close>

datatype error = KeyError string | ZeroDivisionError | FileNotFoundError | TypeError

definition round_half_even :: "rat \<Rightarrow> int" where
  "round_half_even x =
     (let f = \<lfloor>x\<rfloor>; d = x - of_int f
      in if d < 1 / 2 then f
         else if 1 / 2 < d then f + 1
         else if even f then f else f + 1)"

definition py_round2 :: "rat \<Rightarrow> rat" where
  \<comment> \<open>\<open>round(x, 2)\<close>\<close>
  "py_round2 x = of_int (round_half_even (x * 100)) / 100"

definition py_int :: "rat \<Rightarrow> int" where
  \<comment> \<open>\<open>int(x)\<close> on a float: truncation towards zero\<close>
  "py_int x = (if 0 \<le> x then \<lfloor>x\<rfloor> else \<lceil>x\<rceil>)"

text \<open>
  Strings. A Python \<open>str\<close> is modelled by the list of the bytes of its UTF-8
  encoding: equality and emptiness are those of the string, and \<open>a in b\<close> is
  \<open>sublist a b\<close>, since an encoded string occurs in another one at character boundaries
  only. \<open>str.lower\<close> and \<open>str.strip\<close> are library functions over all of Unicode;
  they are parameters of the model.
\<close>

record py_str =
  str_lower :: "string \<Rightarrow> string"
  str_strip :: "string \<Rightarrow> string"

definition truthy :: "string option \<Rightarrow> bool" where
  \<comment> \<open>truth value of \<open>session.get(key)\<close> for a string field: \<open>None\<close> and \<open>''\<close> are false\<close>
  "truthy v = (case v of None \<Rightarrow> False | Some s \<Rightarrow> s \<noteq> [])"

section \<open>Configuration (config/settings.py)\<close>

record error_weights =
  w_phrase_matching :: rat
  w_behavioral_patterns :: rat
  w_ai_analysis :: rat
  w_sentiment_correlation :: rat

record error_thresholds =
  th_high :: rat
  th_medium :: rat

record settings =
  ERROR_DETECTION_SAMPLE_RATE :: rat
  ERROR_WEIGHTS :: error_weights
  ERROR_THRESHOLDS :: error_thresholds
  SHORT_CONVERSATION_THRESHOLD :: int
  RAPID_ABANDONMENT_THRESHOLD :: rat
  STUCK_SESSION_THRESHOLD :: rat

definition default_settings :: settings where
  "default_settings =
     \<lparr>ERROR_DETECTION_SAMPLE_RATE = 15 / 100,
      ERROR_WEIGHTS = \<lparr>w_phrase_matching = 30 / 100, w_behavioral_patterns = 25 / 100,
                       w_ai_analysis = 35 / 100, w_sentiment_correlation = 10 / 100\<rparr>,
      ERROR_THRESHOLDS = \<lparr>th_high = 70, th_medium = 40\<rparr>,
      SHORT_CONVERSATION_THRESHOLD = 3,
      RAPID_ABANDONMENT_THRESHOLD = 120,
      STUCK_SESSION_THRESHOLD = 1800\<rparr>"

section \<open>Sessions and messages\<close>

text \<open>
  A message is the dictionary \<open>msg['message']\<close>; an absent \<open>type\<close> reads as
  \<open>'unknown'\<close> and an absent \<open>content\<close> as \<open>''\<close>, the defaults of the source's
  \<open>get\<close> calls. A timestamp field is absent (or empty), or holds a value that
  \<open>datetime.fromisoformat\<close> rejects, or an instant (seconds) with or without a UTC
  offset; subtracting an offset-aware from a naive instant raises \<open>TypeError\<close>.
\<close>

record message =
  msg_type :: string
  content :: string

datatype timestamp = Malformed | Naive rat | Aware rat

record session =
  sid :: nat
  status :: "string option"
  started_at :: "timestamp option"
  ended_at :: "timestamp option"
  analyse_sentimental :: "string option"
  messages :: "message list"
  message_count :: int

section \<open>The detector object (ErrorDetector.__init__)\<close>

text \<open>
  The phrase lexicon is the content of \<open>config/error_phrases.json\<close>: a dictionary from
  category names to phrase lists, iterated in file order. The file system is a
  parameter: a path either holds a parsed lexicon or cannot be loaded.
\<close>

type_synonym lexicon = "(string \<times> string list) list"

record detector =
  error_phrases :: lexicon
  weights :: error_weights
  thresholds :: error_thresholds

definition load_error_phrases :: "(string \<Rightarrow> lexicon option) \<Rightarrow> string \<Rightarrow> error + lexicon" where
  "load_error_phrases fs path = (case fs path of None \<Rightarrow> Inl FileNotFoundError | Some lx \<Rightarrow> Inr lx)"

definition ErrorDetector_init ::
  "settings \<Rightarrow> (string \<Rightarrow> lexicon option) \<Rightarrow> string \<Rightarrow> error + detector" where
  "ErrorDetector_init cfg fs error_phrases_path =
     (case load_error_phrases fs error_phrases_path of
        Inl e \<Rightarrow> Inl e
      | Inr lx \<Rightarrow>
          Inr \<lparr>error_phrases = lx, weights = ERROR_WEIGHTS cfg,
               thresholds = ERROR_THRESHOLDS cfg\<rparr>)"

section \<open>Method 1: phrase matching (ErrorDetector.detect_phrase_errors)\<close>

record matched_phrase =
  mp_phrase :: string
  mp_category :: string
  mp_message_type :: string

record category_counts =
  error_indicators :: nat
  frustration_indicators :: nat
  escalation_phrases :: nat

record phrase_result =
  p_score :: rat
  matched_phrases :: "matched_phrase list"
  categories :: "category_counts option"
  total_matches :: nat

definition bump :: "string \<Rightarrow> category_counts \<Rightarrow> error + category_counts" where
  \<comment> \<open>\<open>categories[category] += 1\<close> on the dictionary with the three fixed keys\<close>
  "bump cat cs =
     (if cat = ''error_indicators'' then Inr (cs\<lparr>error_indicators := error_indicators cs + 1\<rparr>)
      else if cat = ''frustration_indicators''
        then Inr (cs\<lparr>frustration_indicators := frustration_indicators cs + 1\<rparr>)
      else if cat = ''escalation_phrases''
        then Inr (cs\<lparr>escalation_phrases := escalation_phrases cs + 1\<rparr>)
      else Inl (KeyError cat))"

type_synonym phrase_state = "matched_phrase list \<times> category_counts"

fun scan_phrases ::
  "py_str \<Rightarrow> string \<Rightarrow> string \<Rightarrow> string \<Rightarrow> string list \<Rightarrow> phrase_state \<Rightarrow> error + phrase_state" where
  "scan_phrases py c t cat [] st = Inr st"
| "scan_phrases py c t cat (p # ps) (mp, cs) =
     (if sublist (str_lower py p) c
      then (case bump cat cs of
              Inl e \<Rightarrow> Inl e
            | Inr cs' \<Rightarrow>
                scan_phrases py c t cat ps
                  (mp @ [\<lparr>mp_phrase = p, mp_category = cat, mp_message_type = t\<rparr>], cs'))
      else scan_phrases py c t cat ps (mp, cs))"

fun scan_categories :: "py_str \<Rightarrow> string \<Rightarrow> string \<Rightarrow> lexicon \<Rightarrow> phrase_state \<Rightarrow> error + phrase_state" where
  "scan_categories py c t [] st = Inr st"
| "scan_categories py c t ((cat, ps) # lx) st =
     (case scan_phrases py c t cat ps st of
        Inl e \<Rightarrow> Inl e
      | Inr st' \<Rightarrow> scan_categories py c t lx st')"

fun scan_messages :: "py_str \<Rightarrow> lexicon \<Rightarrow> message list \<Rightarrow> phrase_state \<Rightarrow> error + phrase_state" where
  "scan_messages py lx [] st = Inr st"
| "scan_messages py lx (m # ms) st =
     (let c = str_lower py (content m)
      in if c = [] then scan_messages py lx ms st
         else (case scan_categories py c (msg_type m) lx st of
                 Inl e \<Rightarrow> Inl e
               | Inr st' \<Rightarrow> scan_messages py lx ms st'))"

definition phrase_score :: "phrase_state \<Rightarrow> rat" where
  "phrase_score st =
     (let (mp, cs) = st
      in if length mp = 0 then 0
         else min 100
                ((of_nat (error_indicators cs) * 1
                  + of_nat (frustration_indicators cs) * (3 / 2)
                  + of_nat (escalation_phrases cs) * 2) * 10))"

definition detect_phrase_errors :: "py_str \<Rightarrow> detector \<Rightarrow> session \<Rightarrow> error + phrase_result" where
  "detect_phrase_errors py d s =
     (if messages s = []
      then Inr \<lparr>p_score = 0, matched_phrases = [], categories = None, total_matches = 0\<rparr>
      else (case scan_messages py (error_phrases d) (messages s)
                   ([], \<lparr>error_indicators = 0, frustration_indicators = 0,
                         escalation_phrases = 0\<rparr>) of
              Inl e \<Rightarrow> Inl e
            | Inr st \<Rightarrow>
                Inr \<lparr>p_score = py_round2 (phrase_score st), matched_phrases = fst st,
                     categories = Some (snd st), total_matches = length (fst st)\<rparr>))"

section \<open>Method 2: behavioural patterns (ErrorDetector.detect_behavioral_errors)\<close>

record behavioral_result =
  b_score :: rat
  patterns :: "string list"
  pattern_count :: nat

text \<open>The two lists the source appends to: \<open>patterns_detected\<close> and \<open>score_components\<close>.\<close>

type_synonym behavior_state = "string list \<times> rat list"

definition trigger :: "string \<Rightarrow> rat \<Rightarrow> behavior_state \<Rightarrow> behavior_state" where
  "trigger name pts bs = (fst bs @ [name], snd bs @ [pts])"

definition duration_seconds :: "timestamp \<Rightarrow> timestamp \<Rightarrow> rat option" where
  \<comment> \<open>\<open>(ended_dt - started_dt).total_seconds()\<close>; \<open>None\<close> when parsing or subtracting raises\<close>
  "duration_seconds started ended =
     (case (started, ended) of
        (Naive a, Naive b) \<Rightarrow> Some (b - a)
      | (Aware a, Aware b) \<Rightarrow> Some (b - a)
      | _ \<Rightarrow> None)"

definition check_short_conversation :: "settings \<Rightarrow> session \<Rightarrow> behavior_state \<Rightarrow> behavior_state" where
  "check_short_conversation cfg s bs =
     (if message_count s > 0 \<and> message_count s < SHORT_CONVERSATION_THRESHOLD cfg
      then trigger ''short_conversation'' 30 bs else bs)"

definition check_timing :: "settings \<Rightarrow> session \<Rightarrow> behavior_state \<Rightarrow> behavior_state" where
  "check_timing cfg s bs =
     (case (started_at s, ended_at s) of
        (Some started, Some ended) \<Rightarrow>
          (case duration_seconds started ended of
             None \<Rightarrow> bs
           | Some duration \<Rightarrow>
               if 0 < duration \<and> duration < RAPID_ABANDONMENT_THRESHOLD cfg
               then trigger ''rapid_abandonment'' 40 bs
               else if status s = Some ''active'' \<and> duration > STUCK_SESSION_THRESHOLD cfg
               then trigger ''stuck_session'' 35 bs
               else bs)
      | _ \<Rightarrow> bs)"

definition human_messages :: "py_str \<Rightarrow> message list \<Rightarrow> string list" where
  "human_messages py ms =
     filter (\<lambda>c. c \<noteq> [])
       (map (\<lambda>m. str_lower py (str_strip py (content m))) (filter (\<lambda>m. msg_type m = ''human'') ms))"

definition check_repeated_messages :: "py_str \<Rightarrow> session \<Rightarrow> behavior_state \<Rightarrow> behavior_state" where
  "check_repeated_messages py s bs =
     (if messages s \<noteq> [] then
        (let hs = human_messages py (messages s) in
         if length hs \<ge> 2 then
           (let duplicates = length hs - length (remdups hs) in
            if duplicates > 0
            then trigger ''repeated_messages'' (25 * of_nat (min duplicates 3)) bs
            else bs)
         else bs)
      else bs)"

definition check_failed_session :: "session \<Rightarrow> behavior_state \<Rightarrow> behavior_state" where
  "check_failed_session s bs =
     (if status s = Some ''failed'' then trigger ''failed_session'' 50 bs else bs)"

definition check_no_sentiment :: "session \<Rightarrow> behavior_state \<Rightarrow> behavior_state" where
  "check_no_sentiment s bs =
     (if \<not> truthy (analyse_sentimental s) \<and> status s = Some ''active''
      then trigger ''no_sentiment_analysis'' 10 bs else bs)"

definition behavior_scan :: "py_str \<Rightarrow> settings \<Rightarrow> session \<Rightarrow> behavior_state" where
  "behavior_scan py cfg s =
     check_no_sentiment s
       (check_failed_session s
         (check_repeated_messages py s
           (check_timing cfg s
             (check_short_conversation cfg s ([], [])))))"

definition score_components :: "py_str \<Rightarrow> settings \<Rightarrow> session \<Rightarrow> rat list" where
  "score_components py cfg s = snd (behavior_scan py cfg s)"

definition components_score :: "rat list \<Rightarrow> rat" where
  "components_score cs =
     (if cs \<noteq> [] then min 100 (sum_list cs / of_nat (length cs)) else 0)"

definition detect_behavioral_errors :: "py_str \<Rightarrow> settings \<Rightarrow> session \<Rightarrow> behavioral_result" where
  "detect_behavioral_errors py cfg s =
     (let bs = behavior_scan py cfg s
      in \<lparr>b_score = py_round2 (components_score (snd bs)), patterns = fst bs,
          pattern_count = length (fst bs)\<rparr>)"

section \<open>Method 4: sentiment correlation (ErrorDetector.detect_sentiment_errors)\<close>

record sentiment_result =
  s_score :: rat
  sentiment :: "string option"
  reasoning :: string

definition sentiment_scores :: "string \<Rightarrow> nat" where
  \<comment> \<open>\<open>sentiment_scores.get(sentiment, 15)\<close>\<close>
  "sentiment_scores k =
     (if k = ''negativo'' then 80 else if k = ''neutro'' then 15
      else if k = ''positivo'' then 5 else 15)"

definition show_score :: "nat \<Rightarrow> string" where
  "show_score n = (if n = 80 then ''80'' else if n = 5 then ''5'' else ''15'')"

definition detect_sentiment_errors :: "py_str \<Rightarrow> session \<Rightarrow> sentiment_result" where
  "detect_sentiment_errors py s =
     (let raw_sentiment = analyse_sentimental s;
          sent = str_strip py (str_lower py (case raw_sentiment of None \<Rightarrow> [] | Some v \<Rightarrow> v));
          score = sentiment_scores sent
      in \<lparr>s_score = of_nat score, sentiment = raw_sentiment,
          reasoning = ''Sentiment '' @ [CHR 0x27] @ (if sent \<noteq> [] then sent else ''none'')
                      @ [CHR 0x27] @ '' correlates with '' @ show_score score
                      @ ''% error probability''\<rparr>)"

section \<open>The AI judge (ConversationAnalyzer.analyze_conversation)\<close>

text \<open>
  The call to the generative model and \<open>json.loads\<close> are external. What the
  \<open>try\<close> block of \<open>analyze_conversation\<close> can meet is one of three outcomes: an
  exception other than \<open>JSONDecodeError\<close> (transport failure, a payload that is not a
  dictionary, ...), carrying \<open>str(e)\<close>; a \<open>JSONDecodeError\<close>, carrying \<open>str(e)\<close>;
  or a decoded dictionary, whose keys may each be missing. How the code fences around
  the payload are cut off before \<open>json.loads\<close> is part of that outcome. The value
  under \<open>error_score\<close> is whatever the payload holds: a number (a JSON boolean
  counts as 1 or 0 in arithmetic), \<open>null\<close>, or a value that cannot be multiplied by a
  float (a string, a list, an object). The other fields are stored as they come and
  nothing is computed from them.
\<close>

datatype json_value = JNumber rat | JNull | JOther

record analysis =
  error_score :: "json_value option"
  j_resolved :: "bool option"
  j_understood :: "bool option"
  j_had_errors :: "bool option"
  j_error_description :: "string option"
  j_quality :: "string option"
  j_reasoning :: "string option"

datatype gemini_outcome = Raised string | JSONDecodeError string | Decoded analysis

record ai_details =
  resolved :: bool
  understood :: bool
  had_errors :: bool
  error_description :: string
  quality :: string
  ai_reasoning :: string
  ai_message_count :: nat

record ai_result =
  ai_session_id :: nat
  analyzed :: bool
  ai_error :: "string option"
  ai_score :: json_value
  details :: "ai_details option"

definition get_default :: "'a option \<Rightarrow> 'a \<Rightarrow> 'a" where
  \<comment> \<open>\<open>analysis.get(key, default)\<close>\<close>
  "get_default v dflt = (case v of None \<Rightarrow> dflt | Some x \<Rightarrow> x)"

definition degraded :: "session \<Rightarrow> string \<Rightarrow> ai_result" where
  "degraded s reason =
     \<lparr>ai_session_id = sid s, analyzed = False, ai_error = Some reason,
      ai_score = JNumber 50, details = None\<rparr>"

definition analyze_conversation :: "session \<Rightarrow> gemini_outcome \<Rightarrow> ai_result" where
  "analyze_conversation s outcome =
     (if messages s = []
      then \<lparr>ai_session_id = sid s, analyzed = False, ai_error = Some ''No messages found'',
            ai_score = JNumber 0, details = None\<rparr>
      else (case outcome of
              Decoded a \<Rightarrow>
                \<lparr>ai_session_id = sid s, analyzed = True, ai_error = None,
                 ai_score = get_default (error_score a) (JNumber 50),
                 details = Some
                   \<lparr>resolved = get_default (j_resolved a) False,
                    understood = get_default (j_understood a) True,
                    had_errors = get_default (j_had_errors a) False,
                    error_description = get_default (j_error_description a) [],
                    quality = get_default (j_quality a)
                                (''razo'' @ [CHR 0xC3, CHR 0xA1] @ ''vel''),
                    ai_reasoning = get_default (j_reasoning a) [],
                    ai_message_count = length (messages s)\<rparr>\<rparr>
            | JSONDecodeError e \<Rightarrow> degraded s (''JSON parsing error: '' @ e)
            | Raised e \<Rightarrow> degraded s e))"





section \<open>The pre-AI ensemble (calculate_combined_score, analyze_session)\<close>

datatype level = Low | Medium | High

record ensemble_result =
  r_session_id :: nat
  confidence_score :: rat
  confidence_level :: level
  phrase_detection :: phrase_result
  behavioral_patterns :: behavioral_result
  sentiment_correlation :: sentiment_result
  has_error :: bool
  ai_analysis :: "ai_result option"

definition calculate_combined_score ::
  "detector \<Rightarrow> phrase_result \<Rightarrow> behavioral_result \<Rightarrow> sentiment_result \<Rightarrow> rat" where
  "calculate_combined_score d phrase_res behavioral_res sentiment_res =
     (let w = weights d;
          combined = p_score phrase_res * w_phrase_matching w
                     + b_score behavioral_res * w_behavioral_patterns w
                     + s_score sentiment_res * w_sentiment_correlation w;
          available_weight = w_phrase_matching w + w_behavioral_patterns w
                             + w_sentiment_correlation w;
          combined' = (if available_weight > 0 then combined / available_weight else combined)
      in min 100 (py_round2 combined'))"

definition classify :: "rat \<Rightarrow> rat \<Rightarrow> rat \<Rightarrow> level" where
  "classify hi med score = (if score \<ge> hi then High else if score \<ge> med then Medium else Low)"

definition analyze_session :: "py_str \<Rightarrow> settings \<Rightarrow> detector \<Rightarrow> session \<Rightarrow> error + ensemble_result" where
  "analyze_session py cfg d s =
     (case detect_phrase_errors py d s of
        Inl e \<Rightarrow> Inl e
      | Inr phrase_res \<Rightarrow>
          (let behavioral_res = detect_behavioral_errors py cfg s;
               sentiment_res = detect_sentiment_errors py s;
               combined_score = calculate_combined_score d phrase_res behavioral_res sentiment_res
           in Inr \<lparr>r_session_id = sid s,
                   confidence_score = combined_score,
                   confidence_level =
                     classify (th_high (thresholds d)) (th_medium (thresholds d)) combined_score,
                   phrase_detection = phrase_res,
                   behavioral_patterns = behavioral_res,
                   sentiment_correlation = sentiment_res,
                   has_error = (combined_score \<ge> th_medium (thresholds d)),
                   ai_analysis = None\<rparr>))"

text \<open>
  \<open>analyze_all_sessions\<close>: the loop threads the result list and the
  \<open>Counter\<close> of error categories (an association list in insertion order). The
  \<open>analyzed_at\<close> time stamp of the metadata is left out.
\<close>

record analysis_summary =
  total_sessions :: nat
  analyzed_sessions :: nat
  high_confidence_errors :: nat
  medium_confidence_errors :: nat
  low_confidence_errors :: nat
  error_categories :: "(string \<times> nat) list"
  results :: "ensemble_result list"
  methods_used :: "string list"
  ai_analyzed_sessions :: "nat option"

fun counter_incr :: "string \<Rightarrow> (string \<times> nat) list \<Rightarrow> (string \<times> nat) list" where
  "counter_incr k [] = [(k, 1)]"
| "counter_incr k ((k', n) # kvs) =
     (if k = k' then (k', n + 1) # kvs else (k', n) # counter_incr k kvs)"

definition categorize :: "ensemble_result \<Rightarrow> (string \<times> nat) list \<Rightarrow> (string \<times> nat) list" where
  "categorize result counter =
     (if has_error result then
        (let counter' = fold counter_incr (patterns (behavioral_patterns result)) counter
         in if total_matches (phrase_detection result) > 0
            then counter_incr ''phrase_matches'' counter' else counter')
      else counter)"

fun analyze_loop ::
  "py_str \<Rightarrow> settings \<Rightarrow> detector \<Rightarrow> session list \<Rightarrow> ensemble_result list \<times> (string \<times> nat) list
     \<Rightarrow> error + ensemble_result list \<times> (string \<times> nat) list" where
  "analyze_loop py cfg d [] acc = Inr acc"
| "analyze_loop py cfg d (s # ss) (rs, counter) =
     (case analyze_session py cfg d s of
        Inl e \<Rightarrow> Inl e
      | Inr result \<Rightarrow> analyze_loop py cfg d ss (rs @ [result], categorize result counter))"

definition count_level :: "level \<Rightarrow> ensemble_result list \<Rightarrow> nat" where
  "count_level l rs = length (filter (\<lambda>r. confidence_level r = l) rs)"

definition analyze_all_sessions ::
  "py_str \<Rightarrow> settings \<Rightarrow> detector \<Rightarrow> session list \<Rightarrow> error + analysis_summary" where
  "analyze_all_sessions py cfg d sessions =
     (case analyze_loop py cfg d sessions ([], []) of
        Inl e \<Rightarrow> Inl e
      | Inr (rs, counter) \<Rightarrow>
          Inr \<lparr>total_sessions = length sessions,
               analyzed_sessions = length rs,
               high_confidence_errors = count_level High rs,
               medium_confidence_errors = count_level Medium rs,
               low_confidence_errors = count_level Low rs,
               error_categories = counter,
               results = rs,
               methods_used = [''phrase_matching'', ''behavioral_patterns'',
                               ''sentiment_correlation''],
               ai_analyzed_sessions = None\<rparr>)"

definition detect_errors_step ::
  "py_str \<Rightarrow> settings \<Rightarrow> (string \<Rightarrow> lexicon option) \<Rightarrow> session list \<Rightarrow> error + analysis_summary" where
  \<comment> \<open>step 3 of \<open>main\<close>: \<open>ErrorDetector()\<close>, then \<open>analyze_all_sessions(sessions)\<close>\<close>
  "detect_errors_step py cfg fs sessions =
     (case ErrorDetector_init cfg fs ''config/error_phrases.json'' of
        Inl e \<Rightarrow> Inl e
      | Inr d \<Rightarrow> analyze_all_sessions py cfg d sessions)"

section \<open>Selecting sessions for AI review (select_sessions_for_analysis)\<close>

text \<open>
  The module \<open>random\<close> is a library: it is a parameter, a generator state \<open>'g\<close>
  with \<open>random.seed\<close> and \<open>random.sample\<close>. The function takes the state of the
  process-global generator at the call and returns it as it is left.
\<close>

record 'g random =
  random_seed :: "int \<Rightarrow> 'g"
  random_sample :: "'g \<Rightarrow> session list \<Rightarrow> nat \<Rightarrow> session list \<times> 'g"

definition sessions_dict :: "session list \<Rightarrow> nat \<Rightarrow> session option" where
  \<comment> \<open>\<open>{s['id']: s for s in sessions}\<close>: a later session replaces an earlier one\<close>
  "sessions_dict sessions = map_of (rev (map (\<lambda>s. (sid s, s)) sessions))"

definition ids :: "session list \<Rightarrow> nat list" where
  \<comment> \<open>\<open>[x['id'] for x in selected]\<close>\<close>
  "ids selected = map sid selected"

definition high_confidence :: "session list \<Rightarrow> ensemble_result list \<Rightarrow> session list" where
  "high_confidence sessions rs =
     map (\<lambda>r. the (sessions_dict sessions (r_session_id r)))
       (filter (\<lambda>r. confidence_level r = High \<and> sessions_dict sessions (r_session_id r) \<noteq> None)
          rs)"

definition negative_sentiment :: "session list \<Rightarrow> session list \<Rightarrow> session list" where
  "negative_sentiment sessions selected =
     filter (\<lambda>s. analyse_sentimental s = Some ''Negativo'' \<and> sid s \<notin> set (ids selected))
       sessions"

definition medium_confidence ::
  "session list \<Rightarrow> ensemble_result list \<Rightarrow> session list \<Rightarrow> session list" where
  "medium_confidence sessions rs selected =
     map (\<lambda>r. the (sessions_dict sessions (r_session_id r)))
       (filter (\<lambda>r. confidence_level r = Medium
                     \<and> sessions_dict sessions (r_session_id r) \<noteq> None
                     \<and> sid (the (sessions_dict sessions (r_session_id r))) \<notin> set (ids selected))
          rs)"

definition neutral_sessions :: "session list \<Rightarrow> session list \<Rightarrow> session list" where
  "neutral_sessions sessions selected =
     filter (\<lambda>s. analyse_sentimental s = Some ''Neutro'' \<and> sid s \<notin> set (ids selected))
       sessions"

definition remaining_sessions :: "session list \<Rightarrow> session list \<Rightarrow> session list" where
  "remaining_sessions sessions selected = filter (\<lambda>s. sid s \<notin> set (ids selected)) sessions"

definition sample_size :: "nat \<Rightarrow> rat \<Rightarrow> nat" where
  \<comment> \<open>\<open>min(int(len(pool) * fraction), len(pool))\<close>\<close>
  "sample_size n fraction = nat (min (py_int (of_nat n * fraction)) (int n))"

definition select_by_priority ::
  "'g random \<Rightarrow> session list \<Rightarrow> ensemble_result list \<Rightarrow> session list \<times> 'g" where
  \<comment> \<open>priorities 1 to 4; the generator is seeded before the first sample\<close>
  "select_by_priority rnd sessions rs =
     (let selected1 = high_confidence sessions rs;
          selected2 = selected1 @ negative_sentiment sessions selected1;
          medium_pool = medium_confidence sessions rs selected2;
          g1 = random_seed rnd 42;
          (medium_sample, g2) =
             random_sample rnd g1 medium_pool (sample_size (length medium_pool) (3 / 10));
          selected3 = selected2 @ medium_sample;
          neutral_pool = neutral_sessions sessions selected3;
          (neutral_sample, g3) =
             random_sample rnd g2 neutral_pool (sample_size (length neutral_pool) (10 / 100))
      in (selected3 @ neutral_sample, g3))"

definition target_total :: "settings \<Rightarrow> session list \<Rightarrow> int" where
  "target_total cfg sessions =
     py_int (of_nat (length sessions) * ERROR_DETECTION_SAMPLE_RATE cfg)"

definition fill_to_target ::
  "settings \<Rightarrow> 'g random \<Rightarrow> session list \<Rightarrow> session list \<times> 'g \<Rightarrow> session list \<times> 'g" where
  \<comment> \<open>priority 5\<close>
  "fill_to_target cfg rnd sessions st =
     (let (selected, g) = st;
          remaining_needed = max 0 (target_total cfg sessions - int (length selected))
      in if remaining_needed > 0 then
           (let pool = remaining_sessions sessions selected;
                (random_sample', g') =
                   random_sample rnd g pool (nat (min remaining_needed (int (length pool))))
            in (selected @ random_sample', g'))
         else (selected, g))"

definition select_sessions_for_analysis ::
  "settings \<Rightarrow> 'g random \<Rightarrow> 'g \<Rightarrow> session list \<Rightarrow> ensemble_result list
     \<Rightarrow> (error + session list) \<times> 'g" where
  \<comment> \<open>\<open>g0\<close> is the generator state at the call; the last \<open>print\<close> divides by
      \<open>len(sessions)\<close>\<close>
  "select_sessions_for_analysis cfg rnd g0 sessions rs =
     (let (selected, g) = fill_to_target cfg rnd sessions (select_by_priority rnd sessions rs)
      in if length sessions = 0 then (Inl ZeroDivisionError, g) else (Inr selected, g))"

section \<open>Recombination with the AI judgments (combine_error_analyses)\<close>

definition ai_results_dict :: "ai_result list \<Rightarrow> nat \<Rightarrow> ai_result option" where
  \<comment> \<open>\<open>{r['session_id']: r for r in ai_analysis if r.get('analyzed')}\<close>\<close>
  "ai_results_dict ai = map_of (rev (map (\<lambda>r. (ai_session_id r, r)) (filter analyzed ai)))"

text \<open>
  The combined score is a sum of binary floating-point products. Its \<open>round(x, 2)\<close>
  is a two-decimal value nearest to the exact sum; when the exact sum lies halfway
  between two such values, the representation error of the floating-point sum decides:
  \<open>up\<close>, given the phrase, behavioural, sentiment and AI scores, tells whether the
  floating-point sum comes out above the exact one. Multiplying a score that is not a
  number raises \<open>TypeError\<close>, before the result is touched.
\<close>

type_synonym tie_direction = "rat \<Rightarrow> rat \<Rightarrow> rat \<Rightarrow> rat \<Rightarrow> bool"

definition float_round2 :: "bool \<Rightarrow> rat \<Rightarrow> rat" where
  "float_round2 higher x =
     (let f = \<lfloor>x * 100\<rfloor>; d = x * 100 - of_int f
      in if d < 1 / 2 then of_int f / 100
         else if 1 / 2 < d then of_int (f + 1) / 100
         else if higher then of_int (f + 1) / 100 else of_int f / 100)"

definition recombine ::
  "settings \<Rightarrow> tie_direction \<Rightarrow> ai_result \<Rightarrow> ensemble_result \<Rightarrow> error + ensemble_result" where
  "recombine cfg up ai_res result =
     (let w = ERROR_WEIGHTS cfg;
          basic_score = p_score (phrase_detection result) * w_phrase_matching w
                        + b_score (behavioral_patterns result) * w_behavioral_patterns w
                        + s_score (sentiment_correlation result) * w_sentiment_correlation w
      in case ai_score ai_res of
           JNumber v \<Rightarrow>
             (let ai_part = v * w_ai_analysis w;
                  combined_score = basic_score + ai_part
              in Inr (result\<lparr>confidence_score :=
                                float_round2
                                  (up (p_score (phrase_detection result))
                                      (b_score (behavioral_patterns result))
                                      (s_score (sentiment_correlation result)) v)
                                  combined_score,
                              ai_analysis := Some ai_res,
                              confidence_level := classify 70 40 combined_score,
                              has_error := (combined_score \<ge> 40)\<rparr>))
         | _ \<Rightarrow> Inl TypeError)"

text \<open>
  The loop over \<open>basic_analysis['results']\<close> updates the results in place and stops
  at the first exception: it returns the list as it is left, and the exception if any.
\<close>

fun update_results ::
  "settings \<Rightarrow> tie_direction \<Rightarrow> (nat \<Rightarrow> ai_result option) \<Rightarrow> ensemble_result list
     \<Rightarrow> ensemble_result list \<times> error option" where
  "update_results cfg up dict [] = ([], None)"
| "update_results cfg up dict (result # rest) =
     (case dict (r_session_id result) of
        None \<Rightarrow>
          (let (rest', e) = update_results cfg up dict rest in (result # rest', e))
      | Some ai_res \<Rightarrow>
          (case recombine cfg up ai_res result of
             Inl e \<Rightarrow> (result # rest, Some e)
           | Inr result' \<Rightarrow>
               (let (rest', e) = update_results cfg up dict rest in (result' # rest', e))))"

text \<open>
  \<open>combine_error_analyses\<close> returns \<open>basic_analysis\<close>, the object it has updated in
  place; the model gives that object as the call leaves it, together with the
  exception when the call raises instead of returning.
\<close>

definition combine_error_analyses ::
  "settings \<Rightarrow> tie_direction \<Rightarrow> analysis_summary \<Rightarrow> ai_result list option
     \<Rightarrow> analysis_summary \<times> error option" where
  "combine_error_analyses cfg up basic_analysis ai =
     (case ai of
        None \<Rightarrow> (basic_analysis, None)
      | Some [] \<Rightarrow> (basic_analysis, None)
      | Some (a # as) \<Rightarrow>
          (let dict = ai_results_dict (a # as);
               (rs, e) = update_results cfg up dict (results basic_analysis)
           in case e of
                Some err \<Rightarrow> (basic_analysis\<lparr>results := rs\<rparr>, Some err)
              | None \<Rightarrow>
                  (basic_analysis
                     \<lparr>results := rs,
                      high_confidence_errors := count_level High rs,
                      medium_confidence_errors := count_level Medium rs,
                      low_confidence_errors := count_level Low rs,
                      methods_used := methods_used basic_analysis @ [''ai_analysis''],
                      ai_analyzed_sessions :=
                        Some (length (remdups (map ai_session_id (filter analyzed (a # as)))))\<rparr>,
                   None)))"

section \<open>The properties, in the specification's words\<close>

text \<open>The lexicon the specification describes: three named categories of literal phrases.\<close>

definition known_category :: "string \<Rightarrow> bool" where
  "known_category cat =
     (cat = ''error_indicators'' \<or> cat = ''frustration_indicators'' \<or> cat = ''escalation_phrases'')"

definition lexicon_ok :: "lexicon \<Rightarrow> bool" where
  "lexicon_ok lx = list_all (\<lambda>(cat, ps). known_category cat \<and> list_all (\<lambda>p. p \<noteq> []) ps) lx"

definition count_of :: "string \<Rightarrow> category_counts \<Rightarrow> nat" where
  "count_of cat cs =
     (if cat = ''error_indicators'' then error_indicators cs
      else if cat = ''frustration_indicators'' then frustration_indicators cs
      else if cat = ''escalation_phrases'' then escalation_phrases cs
      else 0)"

text \<open>
  What the matcher needs of \<open>str.lower\<close>: a non-empty string stays non-empty.
\<close>

definition lower_ok :: "py_str \<Rightarrow> bool" where
  "lower_ok py \<longleftrightarrow> (\<forall>s. s \<noteq> [] \<longrightarrow> str_lower py s \<noteq> [])"

text \<open>
  Hit counts by containment: one hit for each pair of a message and a phrase of the
  category such that the lower-cased phrase is a substring of the lower-cased content.
\<close>

definition matches :: "py_str \<Rightarrow> string \<Rightarrow> string list \<Rightarrow> nat" where
  "matches py c ps = length (filter (\<lambda>p. sublist (str_lower py p) c) ps)"

definition content_hits :: "py_str \<Rightarrow> lexicon \<Rightarrow> string \<Rightarrow> string \<Rightarrow> nat" where
  "content_hits py lx cat c = (\<Sum>(k, ps)\<leftarrow>lx. if k = cat then matches py c ps else 0)"

definition phrase_hits :: "py_str \<Rightarrow> lexicon \<Rightarrow> message list \<Rightarrow> string \<Rightarrow> nat" where
  "phrase_hits py lx ms cat = (\<Sum>m\<leftarrow>ms. content_hits py lx cat (str_lower py (content m)))"

definition severity_score :: "py_str \<Rightarrow> lexicon \<Rightarrow> message list \<Rightarrow> rat" where
  "severity_score py lx ms =
     min 100
       ((of_nat (phrase_hits py lx ms ''error_indicators'') * 1
         + of_nat (phrase_hits py lx ms ''frustration_indicators'') * (3 / 2)
         + of_nat (phrase_hits py lx ms ''escalation_phrases'') * 2) * 10)"

text \<open>
  Hit counts by occurrence: every position of the lower-cased content at which the
  lower-cased phrase starts counts.
\<close>

fun occurrences :: "string \<Rightarrow> string \<Rightarrow> nat" where
  "occurrences p [] = (if p = [] then 1 else 0)"
| "occurrences p (c # cs) = (if prefix p (c # cs) then 1 else 0) + occurrences p cs"

definition occurrence_hits :: "py_str \<Rightarrow> lexicon \<Rightarrow> message list \<Rightarrow> string \<Rightarrow> nat" where
  "occurrence_hits py lx ms cat =
     (\<Sum>m\<leftarrow>ms. \<Sum>(k, ps)\<leftarrow>lx.
        if k = cat
        then (\<Sum>p\<leftarrow>ps. occurrences (str_lower py p) (str_lower py (content m)))
        else 0)"

definition occurrence_score :: "py_str \<Rightarrow> lexicon \<Rightarrow> message list \<Rightarrow> rat" where
  "occurrence_score py lx ms =
     min 100
       ((of_nat (occurrence_hits py lx ms ''error_indicators'') * 1
         + of_nat (occurrence_hits py lx ms ''frustration_indicators'') * (3 / 2)
         + of_nat (occurrence_hits py lx ms ''escalation_phrases'') * 2) * 10)"

definition advanced :: "(string \<Rightarrow> nat) \<Rightarrow> phrase_state \<Rightarrow> phrase_state \<Rightarrow> bool" where
  "advanced h st st' \<longleftrightarrow>
     length (fst st') = length (fst st) + (h ''error_indicators'' + h ''frustration_indicators''
                                            + h ''escalation_phrases'') \<and>
     (\<forall>k. count_of k (snd st') = count_of k (snd st) + h k)"

text \<open>The behavioural contributions of the specification's table.\<close>

definition fixed_contribution :: "string \<Rightarrow> rat \<Rightarrow> bool" where
  "fixed_contribution name pts \<longleftrightarrow>
     (name = ''short_conversation'' \<and> pts = 30) \<or>
     (name = ''rapid_abandonment'' \<and> pts = 40) \<or>
     (name = ''stuck_session'' \<and> pts = 35) \<or>
     (name = ''repeated_messages'' \<and> (pts = 25 \<or> pts = 50 \<or> pts = 75)) \<or>
     (name = ''failed_session'' \<and> pts = 50) \<or>
     (name = ''no_sentiment_analysis'' \<and> pts = 10)"

definition arithmetic_mean :: "rat list \<Rightarrow> rat" where
  "arithmetic_mean cs = sum_list cs / of_nat (length cs)"


definition weighted_sum :: "error_weights \<Rightarrow> rat \<Rightarrow> rat \<Rightarrow> rat \<Rightarrow> rat \<Rightarrow> rat" where
  "weighted_sum w p b s a =
     p * w_phrase_matching w + b * w_behavioral_patterns w + s * w_sentiment_correlation w
     + a * w_ai_analysis w"


definition component_sum :: "error_weights \<Rightarrow> ensemble_result \<Rightarrow> rat \<Rightarrow> rat" where
  "component_sum w r v =
     weighted_sum w (p_score (phrase_detection r)) (b_score (behavioral_patterns r))
       (s_score (sentiment_correlation r)) v"


definition in_range :: "rat \<Rightarrow> bool" where
  "in_range x \<longleftrightarrow> 0 \<le> x \<and> x \<le> 100"

definition weights_nonneg :: "error_weights \<Rightarrow> bool" where
  "weights_nonneg w \<longleftrightarrow>
     0 \<le> w_phrase_matching w \<and> 0 \<le> w_behavioral_patterns w \<and>
     0 \<le> w_sentiment_correlation w \<and> 0 \<le> w_ai_analysis w"

definition weights_total :: "error_weights \<Rightarrow> rat" where
  "weights_total w =
     w_phrase_matching w + w_behavioral_patterns w + w_sentiment_correlation w + w_ai_analysis w"

definition config_valid :: "settings \<Rightarrow> bool" where
  "config_valid cfg \<longleftrightarrow>
     weights_total (ERROR_WEIGHTS cfg) = 1 \<and>
     in_range (th_high (ERROR_THRESHOLDS cfg)) \<and> in_range (th_medium (ERROR_THRESHOLDS cfg))"

definition score_in_range :: "json_value \<Rightarrow> bool" where
  "score_in_range j = (case j of JNumber v \<Rightarrow> in_range v | _ \<Rightarrow> False)"

definition payload_in_range :: "gemini_outcome \<Rightarrow> bool" where
  "payload_in_range outcome =
     (case outcome of
        Decoded a \<Rightarrow> (case error_score a of None \<Rightarrow> True | Some j \<Rightarrow> score_in_range j)
      | _ \<Rightarrow> True)"




text \<open>The contract of \<open>random.sample(pool, k)\<close>: \<open>k\<close> elements from distinct positions.\<close>

definition sample_ok :: "'g random \<Rightarrow> bool" where
  "sample_ok rnd \<longleftrightarrow>
     (\<forall>g pool k. k \<le> length pool \<longrightarrow>
        mset (fst (random_sample rnd g pool k)) \<subseteq># mset pool \<and>
        length (fst (random_sample rnd g pool k)) = k)"

text \<open>Observations of the pipeline used in the examples.\<close>

definition summary_scores :: "analysis_summary \<Rightarrow> rat list" where
  "summary_scores a = map confidence_score (results a)"

definition scores_after_ai ::
  "settings \<Rightarrow> tie_direction \<Rightarrow> ai_result list option \<Rightarrow> analysis_summary \<Rightarrow> rat list" where
  "scores_after_ai cfg up ai a = summary_scores (fst (combine_error_analyses cfg up a ai))"

definition claimed_scores_after_ai ::
  "settings \<Rightarrow> ai_result list \<Rightarrow> analysis_summary \<Rightarrow> rat list" where
  \<comment> \<open>the plain weighted sum for every session for which the list holds a judgment\<close>
  "claimed_scores_after_ai cfg ai a =
     map (\<lambda>r. case find (\<lambda>j. ai_session_id j = r_session_id r) ai of
                 None \<Rightarrow> confidence_score r
               | Some j \<Rightarrow>
                   (case ai_score j of
                      JNumber v \<Rightarrow> component_sum (ERROR_WEIGHTS cfg) r v
                    | _ \<Rightarrow> confidence_score r))
       (results a)"

definition flags_after_ai ::
  "settings \<Rightarrow> tie_direction \<Rightarrow> ai_result list option \<Rightarrow> analysis_summary \<Rightarrow> bool list" where
  "flags_after_ai cfg up ai a =
     map has_error (results (fst (combine_error_analyses cfg up a ai)))"

definition select_after_detection ::
  "py_str \<Rightarrow> settings \<Rightarrow> (string \<Rightarrow> lexicon option) \<Rightarrow> 'g random \<Rightarrow> 'g \<Rightarrow> session list
     \<Rightarrow> error + nat list" where
  \<comment> \<open>steps 3 and 4 of \<open>main\<close> up to the selection; the identifiers selected\<close>
  "select_after_detection py cfg fs rnd g0 sessions =
     (case detect_errors_step py cfg fs sessions of
        Inl e \<Rightarrow> Inl e
      | Inr a \<Rightarrow>
          map_sum id ids (fst (select_sessions_for_analysis cfg rnd g0 sessions (results a))))"

section \<open>Example inputs\<close>

text \<open>
  An instance of the string functions for the examples: it lower-cases the letters
  \<open>A\<close> to \<open>Z\<close> and strips the ASCII white space, as \<open>str.lower\<close> and
  \<open>str.strip\<close> do on ASCII text.
\<close>

definition ascii_lower_char :: "char \<Rightarrow> char" where
  "ascii_lower_char c =
     (case map_of (zip ''ABCDEFGHIJKLMNOPQRSTUVWXYZ'' ''abcdefghijklmnopqrstuvwxyz'') c of
        Some l \<Rightarrow> l
      | None \<Rightarrow> c)"

definition ascii_is_space :: "char \<Rightarrow> bool" where
  "ascii_is_space c =
     (let n = (of_char c :: nat) in (9 \<le> n \<and> n \<le> 13) \<or> (28 \<le> n \<and> n \<le> 32))"

definition ascii_str :: py_str where
  "ascii_str =
     \<lparr>str_lower = map ascii_lower_char,
      str_strip = (\<lambda>s. rev (dropWhile ascii_is_space (rev (dropWhile ascii_is_space s))))\<rparr>"

definition lexicon_demo :: lexicon where
  "lexicon_demo =
     [(''error_indicators'', [''erro'', ''nao funciona'']),
      (''frustration_indicators'', [''absurdo'']),
      (''escalation_phrases'', [''procon''])]"

definition fs_demo :: "string \<Rightarrow> lexicon option" where
  "fs_demo path = (if path = ''config/error_phrases.json'' then Some lexicon_demo else None)"

definition detector_demo :: detector where
  "detector_demo =
     \<lparr>error_phrases = lexicon_demo, weights = ERROR_WEIGHTS default_settings,
      thresholds = ERROR_THRESHOLDS default_settings\<rparr>"

definition session_quiet :: session where
  "session_quiet =
     \<lparr>sid = 1, status = Some ''completed'', started_at = None, ended_at = None,
      analyse_sentimental = None, messages = [], message_count = 0\<rparr>"

definition session_brief :: session where
  "session_brief =
     \<lparr>sid = 2, status = Some ''active'', started_at = Some (Aware 0), ended_at = Some (Aware 60),
      analyse_sentimental = None, messages = [\<lparr>msg_type = ''human'', content = ''oi''\<rparr>],
      message_count = 1\<rparr>"

definition session_talk :: session where
  "session_talk =
     \<lparr>sid = 3, status = Some ''completed'', started_at = Some (Aware 0),
      ended_at = Some (Aware 600), analyse_sentimental = Some ''Neutro'',
      messages = [\<lparr>msg_type = ''human'', content = ''Deu ERRO aqui''\<rparr>,
                  \<lparr>msg_type = ''ai'', content = ''Pode detalhar?''\<rparr>,
                  \<lparr>msg_type = ''human'', content = ''que absurdo, erro de novo''\<rparr>],
      message_count = 3\<rparr>"

definition session_angry :: session where
  "session_angry =
     \<lparr>sid = 4, status = Some ''failed'', started_at = None, ended_at = None,
      analyse_sentimental = Some ''Negativo'',
      messages = [\<lparr>msg_type = ''human'', content = ''Erro, nao funciona, absurdo, PROCON''\<rparr>,
                  \<lparr>msg_type = ''human'', content = ''erro! nao funciona! absurdo! procon!''\<rparr>],
      message_count = 2\<rparr>"

definition session_echo :: session where
  "session_echo =
     \<lparr>sid = 5, status = Some ''completed'', started_at = None, ended_at = None,
      analyse_sentimental = Some ''Neutro'',
      messages = [\<lparr>msg_type = ''human'', content = ''erro erro erro''\<rparr>,
                  \<lparr>msg_type = ''ai'', content = ''Vamos verificar.''\<rparr>,
                  \<lparr>msg_type = ''human'', content = ''obrigado''\<rparr>],
      message_count = 3\<rparr>"

definition ties_up :: tie_direction where
  \<comment> \<open>floating-point sums that come out above every halfway value\<close>
  "ties_up p b s a = True"

definition payload :: "rat \<Rightarrow> gemini_outcome" where
  "payload v =
     Decoded \<lparr>error_score = Some (JNumber v), j_resolved = Some False, j_understood = Some True,
              j_had_errors = Some True, j_error_description = None, j_quality = None,
              j_reasoning = None\<rparr>"

definition random_demo :: "nat random" where
  \<comment> \<open>a generator that counts its draws and samples the first \<open>k\<close> elements\<close>
  "random_demo = \<lparr>random_seed = (\<lambda>n. 0), random_sample = (\<lambda>g pool k. (take k pool, g + 1))\<rparr>"

definition settings_unchecked :: settings where
  "settings_unchecked =
     default_settings
       \<lparr>ERROR_WEIGHTS := \<lparr>w_phrase_matching = 1, w_behavioral_patterns = 1,
                          w_ai_analysis = 1, w_sentiment_correlation = 1\<rparr>,
        ERROR_THRESHOLDS := \<lparr>th_high = 700, th_medium = - 5\<rparr>\<rparr>"

section \<open>Rounding\<close>

lemma round_half_even_of_int: "round_half_even (of_int n) = n"
  by (simp add: round_half_even_def)

lemma py_round2_of_int: "py_round2 (of_int n) = of_int n"
proof -
  have "of_int n * (100 :: rat) = of_int (n * 100)" by simp
  then have "round_half_even (of_int n * 100) = n * 100"
    using round_half_even_of_int [of "n * 100"] by simp
  then show ?thesis by (simp add: py_round2_def)
qed

lemma round_half_even_lower: "of_int n \<le> x \<Longrightarrow> n \<le> round_half_even x"
proof -
  assume "of_int n \<le> x"
  then have "n \<le> \<lfloor>x\<rfloor>" by (simp add: le_floor_iff)
  then show ?thesis by (simp add: round_half_even_def Let_def)
qed

lemma round_half_even_upper: "x \<le> of_int n \<Longrightarrow> round_half_even x \<le> n"
proof -
  assume le: "x \<le> of_int n"
  show ?thesis
  proof (cases "x = of_int n")
    case True
    then show ?thesis by (simp add: round_half_even_of_int)
  next
    case False
    with le have "x < of_int n" by simp
    then have "\<lfloor>x\<rfloor> < n" by (simp add: floor_less_iff)
    then show ?thesis by (simp add: round_half_even_def Let_def)
  qed
qed

lemma py_round2_in_range:
  assumes "in_range x"
  shows "in_range (py_round2 x)"
proof -
  from assms have a: "of_int 0 \<le> x * 100" and b: "x * 100 \<le> of_int 10000"
    by (simp_all add: in_range_def)
  have l: "0 \<le> round_half_even (x * 100)"
    using round_half_even_lower [OF a] .
  have u: "round_half_even (x * 100) \<le> 10000"
    using round_half_even_upper [OF b] .
  from l have "(0 :: rat) \<le> of_int (round_half_even (x * 100))" by simp
  moreover from u have "(of_int (round_half_even (x * 100)) :: rat) \<le> 10000" by simp
  ultimately show ?thesis by (simp add: in_range_def py_round2_def)
qed

lemma py_round2_nonneg: "0 \<le> x \<Longrightarrow> 0 \<le> py_round2 x"
proof -
  assume "0 \<le> x"
  then have "of_int 0 \<le> x * 100" by simp
  then have "0 \<le> round_half_even (x * 100)" by (rule round_half_even_lower)
  then show ?thesis by (simp add: py_round2_def)
qed

lemma floor_rat_numeral: "\<lfloor>(numeral a :: rat) / numeral b\<rfloor> = numeral a div numeral b"
  using floor_divide_of_int_eq [of "numeral a" "numeral b", where ?'a = rat] by simp

lemmas round_defs = py_round2_def round_half_even_def Let_def floor_rat_numeral

lemma py_round2_zero: "py_round2 0 = 0"
  using py_round2_of_int [of 0] by simp


lemma float_round2_cases:
  assumes "f = \<lfloor>x * 100\<rfloor>" and "d = x * 100 - of_int f"
  shows "(float_round2 up x = of_int f / 100 \<and> d \<le> 1 / 2) \<or>
         (float_round2 up x = of_int (f + 1) / 100 \<and> 1 / 2 \<le> d)"
proof -
  have e: "float_round2 up x =
      (if d < 1 / 2 then of_int f / 100
       else if 1 / 2 < d then of_int (f + 1) / 100
       else if up then of_int (f + 1) / 100 else of_int f / 100)"
    unfolding float_round2_def Let_def assms by (rule refl)
  show ?thesis unfolding e by auto
qed

lemma float_round2_in_range:
  assumes "in_range x"
  shows "in_range (float_round2 up x)"
proof -
  define f where "f = \<lfloor>x * 100\<rfloor>"
  define d where "d = x * 100 - of_int f"
  from assms have a: "0 \<le> x * 100" and b: "x * 100 \<le> 10000"
    by (simp_all add: in_range_def)
  have fl: "of_int f \<le> x * 100" unfolding f_def by (rule of_int_floor_le)
  from a have "0 \<le> f" unfolding f_def by simp
  then have f0: "(0 :: rat) \<le> of_int f" by simp
  from fl b have f1: "(of_int f :: rat) \<le> 10000" by linarith
  have f2: "(of_int f :: rat) + 1 \<le> 10000" if "1 / 2 \<le> d"
  proof -
    from that b have "(of_int f :: rat) < 10000" unfolding d_def by linarith
    then have "f < 10000" by simp
    then have "f + 1 \<le> 10000" by simp
    then have "(of_int (f + 1) :: rat) \<le> of_int 10000" by (subst of_int_le_iff)
    then show ?thesis by simp
  qed
  from float_round2_cases [OF f_def d_def, of up]
  show ?thesis
  proof
    assume "float_round2 up x = of_int f / 100 \<and> d \<le> 1 / 2"
    with f0 f1 show ?thesis by (simp add: in_range_def)
  next
    assume h: "float_round2 up x = of_int (f + 1) / 100 \<and> 1 / 2 \<le> d"
    with f2 have "(of_int f :: rat) + 1 \<le> 10000" by simp
    with h f0 show ?thesis by (simp add: in_range_def)
  qed
qed



section \<open>The phrase matcher counts containment hits\<close>

lemma advanced_trans:
  "advanced h1 st st1 \<Longrightarrow> advanced h2 st1 st2 \<Longrightarrow> \<forall>k. h k = h1 k + h2 k \<Longrightarrow> advanced h st st2"
  by (simp add: advanced_def)

lemma bump_known:
  assumes "known_category cat"
  shows "\<exists>cs'. bump cat cs = Inr cs' \<and>
           (\<forall>k. count_of k cs' = count_of k cs + (if k = cat then 1 else 0))"
  using assms by (auto simp: known_category_def bump_def count_of_def)

lemma scan_phrases_known:
  assumes "known_category cat"
  shows "\<exists>st'. scan_phrases py c t cat ps st = Inr st' \<and>
           advanced (\<lambda>k. if k = cat then matches py c ps else 0) st st'"
proof (induction ps arbitrary: st)
  case Nil
  show ?case by (simp add: advanced_def matches_def)
next
  case (Cons p ps)
  obtain mp cs where st: "st = (mp, cs)" by (cases st)
  show ?case
  proof (cases "sublist (str_lower py p) c")
    case False
    with Cons.IH [of st] show ?thesis by (auto simp: st matches_def cong: if_cong)
  next
    case True
    from bump_known [OF assms, where cs = cs] obtain cs1 where
      b: "bump cat cs = Inr cs1"
      and c1: "\<forall>k. count_of k cs1 = count_of k cs + (if k = cat then 1 else 0)"
      by blast
    let ?st1 = "(mp @ [\<lparr>mp_phrase = p, mp_category = cat, mp_message_type = t\<rparr>], cs1)"
    from Cons.IH [of ?st1] obtain st' where
      r: "scan_phrases py c t cat ps ?st1 = Inr st'"
      and a: "advanced (\<lambda>k. if k = cat then matches py c ps else 0) ?st1 st'"
      by blast
    have "scan_phrases py c t cat (p # ps) st = Inr st'"
      using True b r by (simp add: st)
    moreover have "advanced (\<lambda>k. if k = cat then matches py c (p # ps) else 0) st st'"
      using a c1 True assms
      by (auto simp: advanced_def st matches_def known_category_def cong: if_cong)
    ultimately show ?thesis by blast
  qed
qed

lemma scan_categories_ok:
  assumes "lexicon_ok lx"
  shows "\<exists>st'. scan_categories py c t lx st = Inr st' \<and> advanced (\<lambda>k. content_hits py lx k c) st st'"
  using assms
proof (induction lx arbitrary: st)
  case Nil
  show ?case by (simp add: advanced_def content_hits_def)
next
  case (Cons e lx)
  obtain cat ps where e: "e = (cat, ps)" by (cases e)
  from Cons.prems have kc: "known_category cat" and ok: "lexicon_ok lx"
    by (simp_all add: lexicon_ok_def e)
  from scan_phrases_known [OF kc, where py = py and c = c and t = t and ps = ps and st = st]
  obtain st1 where
    r1: "scan_phrases py c t cat ps st = Inr st1"
    and a1: "advanced (\<lambda>k. if k = cat then matches py c ps else 0) st st1"
    by blast
  from Cons.IH [OF ok, of st1] obtain st' where
    r2: "scan_categories py c t lx st1 = Inr st'"
    and a2: "advanced (\<lambda>k. content_hits py lx k c) st1 st'"
    by blast
  have "scan_categories py c t (e # lx) st = Inr st'"
    using r1 r2 by (simp add: e)
  moreover have "advanced (\<lambda>k. content_hits py (e # lx) k c) st st'"
    by (rule advanced_trans [OF a1 a2]) (simp add: content_hits_def e)
  ultimately show ?case by blast
qed

lemma content_hits_empty:
  assumes "lexicon_ok lx" and "lower_ok py"
  shows "content_hits py lx k [] = 0"
  using assms
  by (induction lx)
     (auto simp: content_hits_def lexicon_ok_def matches_def list_all_iff lower_ok_def
        filter_empty_conv)

lemma scan_messages_returns:
  assumes "lexicon_ok lx"
  shows "\<exists>st'. scan_messages py lx ms st = Inr st'"
proof (induction ms arbitrary: st)
  case Nil
  show ?case by simp
next
  case (Cons m ms)
  from scan_categories_ok [OF assms, where py = py and c = "str_lower py (content m)"
         and t = "msg_type m" and st = st]
  obtain st1 where
    "scan_categories py (str_lower py (content m)) (msg_type m) lx st = Inr st1" by blast
  with Cons.IH [of st] Cons.IH [of st1] show ?case by (simp add: Let_def)
qed

lemma detect_phrase_errors_returns:
  assumes "lexicon_ok (error_phrases d)"
  shows "\<exists>r. detect_phrase_errors py d s = Inr r"
proof -
  from scan_messages_returns [OF assms] obtain st where
    "scan_messages py (error_phrases d) (messages s)
       ([], \<lparr>error_indicators = 0, frustration_indicators = 0, escalation_phrases = 0\<rparr>)
     = Inr st" by blast
  then show ?thesis by (simp add: detect_phrase_errors_def)
qed

lemma scan_messages_ok:
  assumes "lexicon_ok lx" and "lower_ok py"
  shows "\<exists>st'. scan_messages py lx ms st = Inr st' \<and> advanced (phrase_hits py lx ms) st st'"
proof (induction ms arbitrary: st)
  case Nil
  show ?case by (simp add: advanced_def phrase_hits_def)
next
  case (Cons m ms)
  show ?case
  proof (cases "str_lower py (content m) = []")
    case True
    from Cons.IH [of st] obtain st' where
      r: "scan_messages py lx ms st = Inr st'" and a: "advanced (phrase_hits py lx ms) st st'"
      by blast
    have "phrase_hits py lx (m # ms) = phrase_hits py lx ms"
      using True content_hits_empty [OF assms] by (simp add: phrase_hits_def fun_eq_iff)
    with r a True show ?thesis by simp
  next
    case False
    from scan_categories_ok [OF assms(1), where py = py and c = "str_lower py (content m)"
           and t = "msg_type m" and st = st]
    obtain st1 where
      r1: "scan_categories py (str_lower py (content m)) (msg_type m) lx st = Inr st1"
      and a1: "advanced (\<lambda>k. content_hits py lx k (str_lower py (content m))) st st1"
      by blast
    from Cons.IH [of st1] obtain st' where
      r2: "scan_messages py lx ms st1 = Inr st'" and a2: "advanced (phrase_hits py lx ms) st1 st'"
      by blast
    have "scan_messages py lx (m # ms) st = Inr st'"
      using False r1 r2 by simp
    moreover have "advanced (phrase_hits py lx (m # ms)) st st'"
      by (rule advanced_trans [OF a1 a2]) (simp add: phrase_hits_def)
    ultimately show ?thesis by blast
  qed
qed

lemma phrase_hits_mset:
  assumes "mset ms' = mset ms"
  shows "phrase_hits py lx ms' = phrase_hits py lx ms"
proof -
  have "\<And>xs k. phrase_hits py lx xs k
          = sum_mset (image_mset (\<lambda>m. content_hits py lx k (str_lower py (content m))) (mset xs))"
    by (simp add: phrase_hits_def sum_mset_sum_list [symmetric])
  then show ?thesis using assms by (simp add: fun_eq_iff)
qed

lemma phrase_score_formula:
  assumes "length mp = error_indicators cs + frustration_indicators cs + escalation_phrases cs"
  shows "py_round2 (phrase_score (mp, cs)) =
         min 100 ((of_nat (error_indicators cs) * 1 + of_nat (frustration_indicators cs) * (3 / 2)
                    + of_nat (escalation_phrases cs) * 2) * 10)"
proof -
  let ?n = "10 * int (error_indicators cs) + 15 * int (frustration_indicators cs)
            + 20 * int (escalation_phrases cs)"
  have v: "(of_nat (error_indicators cs) * 1 + of_nat (frustration_indicators cs) * (3 / 2)
             + of_nat (escalation_phrases cs) * 2) * 10 = (of_int ?n :: rat)"
    by (simp add: algebra_simps)
  have m: "min 100 (of_int ?n :: rat) = of_int (min 100 ?n)"
    by (simp add: min_def)
  have z: "length mp = 0 \<Longrightarrow> ?n = 0" using assms by simp
  have "phrase_score (mp, cs) = of_int (min 100 ?n)"
  proof (cases "length mp = 0")
    case True
    with z show ?thesis by (simp add: phrase_score_def)
  next
    case False
    then show ?thesis unfolding phrase_score_def using v m by simp
  qed
  then show ?thesis using v m by (simp add: py_round2_of_int)
qed

lemma detect_phrase_errors_hits:
  assumes ok: "lexicon_ok (error_phrases d)" and lo: "lower_ok py"
  shows "\<exists>r. detect_phrase_errors py d s = Inr r \<and>
           p_score r = severity_score py (error_phrases d) (messages s) \<and>
           total_matches r = phrase_hits py (error_phrases d) (messages s) ''error_indicators''
                             + phrase_hits py (error_phrases d) (messages s) ''frustration_indicators''
                             + phrase_hits py (error_phrases d) (messages s) ''escalation_phrases''"
proof (cases "messages s = []")
  case True
  then show ?thesis
    by (simp add: detect_phrase_errors_def severity_score_def phrase_hits_def)
next
  case False
  let ?z = "\<lparr>error_indicators = 0, frustration_indicators = 0, escalation_phrases = 0\<rparr>"
  let ?h = "phrase_hits py (error_phrases d) (messages s)"
  from scan_messages_ok [OF ok lo, where ms = "messages s" and st = "([], ?z)"]
  obtain mp cs where
    r: "scan_messages py (error_phrases d) (messages s) ([], ?z) = Inr (mp, cs)"
    and a: "advanced ?h ([], ?z) (mp, cs)"
    by (metis surj_pair)
  from a have len: "length mp = ?h ''error_indicators'' + ?h ''frustration_indicators''
                                 + ?h ''escalation_phrases''"
    and cnt: "\<forall>k. count_of k cs = count_of k ?z + ?h k"
    by (simp_all add: advanced_def)
  from cnt [rule_format, of "''error_indicators''"]
  have e: "error_indicators cs = ?h ''error_indicators''" by (simp add: count_of_def)
  from cnt [rule_format, of "''frustration_indicators''"]
  have f: "frustration_indicators cs = ?h ''frustration_indicators''" by (simp add: count_of_def)
  from cnt [rule_format, of "''escalation_phrases''"]
  have x: "escalation_phrases cs = ?h ''escalation_phrases''" by (simp add: count_of_def)
  have "py_round2 (phrase_score (mp, cs)) = severity_score py (error_phrases d) (messages s)"
    using phrase_score_formula [of mp cs] len e f x by (simp add: severity_score_def)
  with False r len show ?thesis by (simp add: detect_phrase_errors_def)
qed

text \<open>
  C5, as the code has it. A session without messages has phrase score 0. With a
  lexicon of the three categories and non-empty phrases, the matcher returns, and its
  score is the hit counts weighted 1.0, 1.5 and 2.0, times 10, capped at 100, where a
  category's hit count has one hit for each pair of a message and a phrase of the
  category whose lower-cased form (\<open>str.lower\<close>) is a substring of the lower-cased
  content: a phrase contained in two messages counts twice, a phrase occurring several
  times in one message counts once. The score does not depend on the order of the
  messages.
\<close>

theorem phrase_matcher_score:
  "(messages s = [] \<longrightarrow>
      detect_phrase_errors py d s =
        Inr \<lparr>p_score = 0, matched_phrases = [], categories = None, total_matches = 0\<rparr>) \<and>
   (lexicon_ok (error_phrases d) \<and> lower_ok py \<longrightarrow>
      (\<exists>r. detect_phrase_errors py d s = Inr r \<and>
            p_score r = severity_score py (error_phrases d) (messages s) \<and>
            total_matches r =
              phrase_hits py (error_phrases d) (messages s) ''error_indicators''
              + phrase_hits py (error_phrases d) (messages s) ''frustration_indicators''
              + phrase_hits py (error_phrases d) (messages s) ''escalation_phrases'') \<and>
      (\<forall>s'. mset (messages s') = mset (messages s) \<longrightarrow>
            map_sum id p_score (detect_phrase_errors py d s')
            = map_sum id p_score (detect_phrase_errors py d s)))"
proof (intro conjI impI allI)
  assume "messages s = []"
  then show "detect_phrase_errors py d s =
        Inr \<lparr>p_score = 0, matched_phrases = [], categories = None, total_matches = 0\<rparr>"
    by (simp add: detect_phrase_errors_def)
next
  assume "lexicon_ok (error_phrases d) \<and> lower_ok py"
  then have ok: "lexicon_ok (error_phrases d)" and lo: "lower_ok py" by simp_all
  from detect_phrase_errors_hits [OF ok lo, where s = s]
  show "\<exists>r. detect_phrase_errors py d s = Inr r \<and>
            p_score r = severity_score py (error_phrases d) (messages s) \<and>
            total_matches r =
              phrase_hits py (error_phrases d) (messages s) ''error_indicators''
              + phrase_hits py (error_phrases d) (messages s) ''frustration_indicators''
              + phrase_hits py (error_phrases d) (messages s) ''escalation_phrases''" .
next
  fix s' :: session
  assume "lexicon_ok (error_phrases d) \<and> lower_ok py"
    and eq: "mset (messages s') = mset (messages s)"
  then have ok: "lexicon_ok (error_phrases d)" and lo: "lower_ok py" by simp_all
  from detect_phrase_errors_hits [OF ok lo, where s = s] obtain r where
    r: "detect_phrase_errors py d s = Inr r"
       "p_score r = severity_score py (error_phrases d) (messages s)" by blast
  from detect_phrase_errors_hits [OF ok lo, where s = s'] obtain r' where
    r': "detect_phrase_errors py d s' = Inr r'"
        "p_score r' = severity_score py (error_phrases d) (messages s')" by blast
  from phrase_hits_mset [OF eq]
  have "severity_score py (error_phrases d) (messages s')
        = severity_score py (error_phrases d) (messages s)"
    by (simp add: severity_score_def)
  with r r' show "map_sum id p_score (detect_phrase_errors py d s')
            = map_sum id p_score (detect_phrase_errors py d s)" by simp
qed

lemmas ascii_defs = ascii_str_def ascii_lower_char_def ascii_is_space_def

lemmas demo_defs =
  detector_demo_def lexicon_demo_def fs_demo_def default_settings_def settings_unchecked_def
  session_quiet_def session_brief_def session_talk_def session_angry_def session_echo_def
  payload_def random_demo_def ties_up_def

lemmas hit_defs =
  phrase_hits_def content_hits_def matches_def ascii_defs sublist_code
  severity_score_def

lemmas phrase_defs =
  detect_phrase_errors_def phrase_score_def bump_def ascii_defs sublist_code

lemma lexicon_demo_ok: "lexicon_ok lexicon_demo"
  by (simp add: lexicon_demo_def lexicon_ok_def known_category_def)

lemma ascii_lower_ok: "lower_ok ascii_str"
  by (simp add: lower_ok_def ascii_str_def)

theorem phrase_matcher_score_witness:
  "lexicon_ok (error_phrases detector_demo) \<and> lower_ok ascii_str \<and>
   phrase_hits ascii_str lexicon_demo (messages session_talk) ''error_indicators'' = 2 \<and>
   phrase_hits ascii_str lexicon_demo (messages session_talk) ''frustration_indicators'' = 1 \<and>
   map_sum id p_score (detect_phrase_errors ascii_str detector_demo session_talk) = Inr 35 \<and>
   map_sum id p_score (detect_phrase_errors ascii_str detector_demo session_quiet) = Inr 0"
proof -
  have ok: "lexicon_ok (error_phrases detector_demo)"
    using lexicon_demo_ok by (simp add: detector_demo_def)
  have e: "phrase_hits ascii_str lexicon_demo (messages session_talk) ''error_indicators'' = 2"
    by (simp add: demo_defs hit_defs)
  have f: "phrase_hits ascii_str lexicon_demo (messages session_talk) ''frustration_indicators'' = 1"
    by (simp add: demo_defs hit_defs)
  have v: "severity_score ascii_str (error_phrases detector_demo) (messages session_talk) = 35"
    by (simp add: demo_defs hit_defs)
  have q: "messages session_quiet = []" by (simp add: session_quiet_def)
  from phrase_matcher_score [where s = session_talk and d = detector_demo and py = ascii_str]
       ok ascii_lower_ok
  obtain r where r: "detect_phrase_errors ascii_str detector_demo session_talk = Inr r"
    and p: "p_score r = severity_score ascii_str (error_phrases detector_demo) (messages session_talk)"
    by blast
  from r p v
  have "map_sum id p_score (detect_phrase_errors ascii_str detector_demo session_talk) = Inr 35"
    by simp
  moreover
  from phrase_matcher_score [where s = session_quiet and d = detector_demo and py = ascii_str] q
  have "detect_phrase_errors ascii_str detector_demo session_quiet =
          Inr \<lparr>p_score = 0, matched_phrases = [], categories = None, total_matches = 0\<rparr>"
    by blast
  then have "map_sum id p_score (detect_phrase_errors ascii_str detector_demo session_quiet) = Inr 0"
    by simp
  ultimately show ?thesis using ok e f ascii_lower_ok by simp
qed

text \<open>
  C5 as stated fails in "counts every occurrence": a message that holds the phrase
  \<open>erro\<close> three times gives one hit and the score 10, where the three occurrences
  would give 30.
\<close>

theorem phrase_matcher_occurrences_counterexample:
  "map_sum id p_score (detect_phrase_errors ascii_str detector_demo session_echo) = Inr 10 \<and>
   occurrence_hits ascii_str lexicon_demo (messages session_echo) ''error_indicators'' = 3 \<and>
   occurrence_score ascii_str lexicon_demo (messages session_echo) = 30"
  by (simp add: phrase_defs demo_defs round_defs occurrence_score_def occurrence_hits_def)


section \<open>The behavioural score\<close>

lemmas behavior_defs =
  detect_behavioral_errors_def behavior_scan_def score_components_def components_score_def
  check_short_conversation_def check_timing_def check_repeated_messages_def
  check_failed_session_def check_no_sentiment_def trigger_def duration_seconds_def
  human_messages_def truthy_def  ascii_defs


lemma trigger_fixed:
  assumes "fixed_contribution name pts" and "list_all2 fixed_contribution (fst bs) (snd bs)"
  shows "list_all2 fixed_contribution (fst (trigger name pts bs)) (snd (trigger name pts bs))"
  using assms by (simp add: trigger_def list_all2_appendI)

lemma check_short_conversation_fixed:
  assumes "list_all2 fixed_contribution (fst bs) (snd bs)"
  shows "list_all2 fixed_contribution (fst (check_short_conversation cfg s bs))
           (snd (check_short_conversation cfg s bs))"
  using assms by (simp add: check_short_conversation_def trigger_fixed fixed_contribution_def)

lemma check_timing_fixed:
  assumes "list_all2 fixed_contribution (fst bs) (snd bs)"
  shows "list_all2 fixed_contribution (fst (check_timing cfg s bs)) (snd (check_timing cfg s bs))"
  using assms
  by (simp add: check_timing_def trigger_fixed fixed_contribution_def split: option.splits)

lemma repeated_contribution:
  assumes "0 < n"
  shows "fixed_contribution ''repeated_messages'' (25 * of_nat (min n 3))"
proof -
  from assms have "min n 3 = 1 \<or> min n 3 = 2 \<or> min n 3 = 3" by (auto simp: min_def)
  then show ?thesis by (auto simp: fixed_contribution_def)
qed

lemma check_repeated_messages_fixed:
  assumes "list_all2 fixed_contribution (fst bs) (snd bs)"
  shows "list_all2 fixed_contribution (fst (check_repeated_messages py s bs))
           (snd (check_repeated_messages py s bs))"
  using assms
  by (simp add: check_repeated_messages_def Let_def trigger_fixed repeated_contribution)

lemma check_failed_session_fixed:
  assumes "list_all2 fixed_contribution (fst bs) (snd bs)"
  shows "list_all2 fixed_contribution (fst (check_failed_session s bs))
           (snd (check_failed_session s bs))"
  using assms by (simp add: check_failed_session_def trigger_fixed fixed_contribution_def)

lemma check_no_sentiment_fixed:
  assumes "list_all2 fixed_contribution (fst bs) (snd bs)"
  shows "list_all2 fixed_contribution (fst (check_no_sentiment s bs))
           (snd (check_no_sentiment s bs))"
  using assms by (simp add: check_no_sentiment_def trigger_fixed fixed_contribution_def)

lemma behavior_scan_fixed:
  "list_all2 fixed_contribution (fst (behavior_scan py cfg s)) (snd (behavior_scan py cfg s))"
  unfolding behavior_scan_def
  by (intro check_no_sentiment_fixed check_failed_session_fixed check_repeated_messages_fixed
        check_timing_fixed check_short_conversation_fixed) simp

lemma fixed_contribution_nonneg: "fixed_contribution name pts \<Longrightarrow> 0 \<le> pts"
  by (auto simp: fixed_contribution_def)

lemma score_components_nonneg: "c \<in> set (score_components py cfg s) \<Longrightarrow> 0 \<le> c"
proof -
  assume c: "c \<in> set (score_components py cfg s)"
  from behavior_scan_fixed [where py = py and cfg = cfg and s = s] c
  obtain name where "fixed_contribution name c"
    unfolding score_components_def by (auto simp: list_all2_conv_all_nth in_set_conv_nth)
  then show ?thesis by (rule fixed_contribution_nonneg)
qed

lemma components_score_in_range:
  assumes "\<And>c. c \<in> set cs \<Longrightarrow> 0 \<le> c"
  shows "in_range (components_score cs)"
proof (cases "cs = []")
  case True
  then show ?thesis by (simp add: components_score_def in_range_def)
next
  case False
  from assms have "0 \<le> sum_list cs" by (simp add: sum_list_nonneg)
  then have "0 \<le> sum_list cs / of_nat (length cs)" by simp
  with False show ?thesis by (simp add: components_score_def in_range_def)
qed

lemma behavioral_score_in_range: "in_range (b_score (detect_behavioral_errors py cfg s))"
proof -
  have "in_range (components_score (score_components py cfg s))"
    by (rule components_score_in_range) (rule score_components_nonneg)
  then show ?thesis
    by (simp add: detect_behavioral_errors_def Let_def score_components_def py_round2_in_range)
qed

text \<open>
  C4, as the code has it. The behavioural score is 0 when no pattern is triggered, and
  otherwise the arithmetic mean of the contributions of the triggered patterns, capped
  at 100 and then rounded to two decimals; each triggered pattern carries its fixed
  contribution.
\<close>

theorem behavioral_score_rounded_mean:
  "b_score (detect_behavioral_errors py cfg s) =
     (if patterns (detect_behavioral_errors py cfg s) = [] then 0
      else py_round2 (min 100 (arithmetic_mean (score_components py cfg s)))) \<and>
   list_all2 fixed_contribution (patterns (detect_behavioral_errors py cfg s))
     (score_components py cfg s) \<and>
   pattern_count (detect_behavioral_errors py cfg s)
     = length (patterns (detect_behavioral_errors py cfg s))"
proof -
  let ?bs = "behavior_scan py cfg s"
  have f: "list_all2 fixed_contribution (fst ?bs) (snd ?bs)" by (rule behavior_scan_fixed)
  then have "length (fst ?bs) = length (snd ?bs)" by (rule list_all2_lengthD)
  then have e: "fst ?bs = [] \<longleftrightarrow> snd ?bs = []" by (metis length_0_conv)
  show ?thesis
    using f e
    by (simp add: detect_behavioral_errors_def Let_def score_components_def
          components_score_def arithmetic_mean_def py_round2_zero)
qed

theorem behavioral_score_rounded_mean_witness:
  "patterns (detect_behavioral_errors ascii_str default_settings session_brief)
     = [''short_conversation'', ''rapid_abandonment'', ''no_sentiment_analysis''] \<and>
   b_score (detect_behavioral_errors ascii_str default_settings session_brief)
     = py_round2 (min 100 (arithmetic_mean [30, 40, 10])) \<and>
   b_score (detect_behavioral_errors ascii_str default_settings session_quiet) = 0"
proof -
  have p: "patterns (detect_behavioral_errors ascii_str default_settings session_brief)
             = [''short_conversation'', ''rapid_abandonment'', ''no_sentiment_analysis'']"
    by (simp add: behavior_defs demo_defs)
  have c: "score_components ascii_str default_settings session_brief = [30, 40, 10]"
    by (simp add: behavior_defs demo_defs)
  have q: "patterns (detect_behavioral_errors ascii_str default_settings session_quiet) = []"
    by (simp add: behavior_defs demo_defs)
  from behavioral_score_rounded_mean
         [where py = ascii_str and cfg = default_settings and s = session_brief] p c
  have "b_score (detect_behavioral_errors ascii_str default_settings session_brief)
          = py_round2 (min 100 (arithmetic_mean [30, 40, 10]))"
    by simp
  moreover
  from behavioral_score_rounded_mean
         [where py = ascii_str and cfg = default_settings and s = session_quiet] q
  have "b_score (detect_behavioral_errors ascii_str default_settings session_quiet) = 0"
    by simp
  ultimately show ?thesis using p by simp
qed

text \<open>
  C4 as stated fails: a session with one message that ends after 60 seconds, still
  active and without sentiment, triggers the contributions 30, 40 and 10; their mean
  is 80/3, the score is 26.67.
\<close>

theorem behavioral_score_mean_counterexample:
  "score_components ascii_str default_settings session_brief = [30, 40, 10] \<and>
   min 100 (arithmetic_mean (score_components ascii_str default_settings session_brief)) = 80 / 3 \<and>
   b_score (detect_behavioral_errors ascii_str default_settings session_brief) = 2667 / 100 \<and>
   b_score (detect_behavioral_errors ascii_str default_settings session_brief)
     \<noteq> min 100 (arithmetic_mean (score_components ascii_str default_settings session_brief))"
  by (simp add: behavior_defs demo_defs arithmetic_mean_def round_defs)

section \<open>The pre-AI ensemble score\<close>

lemmas sentiment_defs =
  detect_sentiment_errors_def sentiment_scores_def show_score_def 
  ascii_defs

lemmas ensemble_defs =
  analyze_session_def calculate_combined_score_def classify_def

lemma detect_phrase_errors_in_range:
  assumes "detect_phrase_errors py d s = Inr r"
  shows "in_range (p_score r)"
proof (cases "messages s = []")
  case True
  with assms show ?thesis by (auto simp: detect_phrase_errors_def in_range_def)
next
  case False
  with assms obtain st where r: "r = \<lparr>p_score = py_round2 (phrase_score st),
      matched_phrases = fst st, categories = Some (snd st), total_matches = length (fst st)\<rparr>"
    by (auto simp: detect_phrase_errors_def split: sum.splits)
  have "in_range (phrase_score st)"
    by (cases st) (simp add: phrase_score_def in_range_def)
  then show ?thesis by (simp add: r py_round2_in_range)
qed

lemma sentiment_score_in_range: "in_range (s_score (detect_sentiment_errors py s))"
  by (simp add: detect_sentiment_errors_def Let_def sentiment_scores_def in_range_def)

lemma calculate_combined_score_in_range:
  assumes w: "weights_nonneg (weights d)"
    and p: "in_range (p_score pr)" and b: "in_range (b_score br)" and s: "in_range (s_score sr)"
  shows "in_range (calculate_combined_score d pr br sr)"
proof -
  let ?c = "p_score pr * w_phrase_matching (weights d)
            + b_score br * w_behavioral_patterns (weights d)
            + s_score sr * w_sentiment_correlation (weights d)"
  let ?a = "w_phrase_matching (weights d) + w_behavioral_patterns (weights d)
            + w_sentiment_correlation (weights d)"
  from w p b s have c: "0 \<le> ?c" by (simp add: weights_nonneg_def in_range_def)
  then have "0 \<le> (if 0 < ?a then ?c / ?a else ?c)" by simp
  then have "0 \<le> py_round2 (if 0 < ?a then ?c / ?a else ?c)" by (rule py_round2_nonneg)
  then show ?thesis by (simp add: calculate_combined_score_def Let_def in_range_def)
qed

lemma analyze_session_components:
  assumes "analyze_session py cfg d s = Inr r"
  shows "detect_phrase_errors py d s = Inr (phrase_detection r)"
    and "behavioral_patterns r = detect_behavioral_errors py cfg s"
    and "sentiment_correlation r = detect_sentiment_errors py s"
    and "r_session_id r = sid s"
    and "confidence_score r =
           calculate_combined_score d (phrase_detection r) (behavioral_patterns r)
             (sentiment_correlation r)"
    and "confidence_level r =
           classify (th_high (thresholds d)) (th_medium (thresholds d)) (confidence_score r)"
    and "has_error r \<longleftrightarrow> th_medium (thresholds d) \<le> confidence_score r"
    and "ai_analysis r = None"
  using assms by (auto simp: analyze_session_def Let_def split: sum.splits)

lemma analyze_session_returns:
  assumes "lexicon_ok (error_phrases d)"
  shows "\<exists>r. analyze_session py cfg d s = Inr r"
proof -
  from detect_phrase_errors_returns [OF assms] obtain pr where
    "detect_phrase_errors py d s = Inr pr" by blast
  then show ?thesis by (simp add: analyze_session_def Let_def)
qed

lemma analyze_session_in_range:
  assumes "analyze_session py cfg d s = Inr r"
  shows "in_range (p_score (phrase_detection r))"
    and "in_range (b_score (behavioral_patterns r))"
    and "in_range (s_score (sentiment_correlation r))"
  using analyze_session_components [OF assms]
  by (simp_all add: detect_phrase_errors_in_range behavioral_score_in_range
        sentiment_score_in_range)



section \<open>Recombination\<close>

lemmas ai_defs = analyze_conversation_def degraded_def get_default_def

lemmas combine_defs =
  combine_error_analyses_def ai_results_dict_def recombine_def float_round2_def
  count_level_def classify_def scores_after_ai_def summary_scores_def
  claimed_scores_after_ai_def component_sum_def weighted_sum_def

lemmas pipeline_defs =
  detect_errors_step_def ErrorDetector_init_def load_error_phrases_def
  analyze_all_sessions_def categorize_def count_level_def

lemma ai_results_dict_None:
  assumes "\<forall>a\<in>set ais. analyzed a \<longrightarrow> ai_session_id a \<noteq> k"
  shows "ai_results_dict ais k = None"
  using assms by (auto simp: ai_results_dict_def map_of_eq_None_iff)



lemma recombine_number:
  assumes "ai_score a = JNumber v"
  shows "recombine cfg up a r =
           Inr (r\<lparr>confidence_score :=
                    float_round2
                      (up (p_score (phrase_detection r)) (b_score (behavioral_patterns r))
                          (s_score (sentiment_correlation r)) v)
                      (component_sum (ERROR_WEIGHTS cfg) r v),
                  ai_analysis := Some a,
                  confidence_level := classify 70 40 (component_sum (ERROR_WEIGHTS cfg) r v),
                  has_error := (40 \<le> component_sum (ERROR_WEIGHTS cfg) r v)\<rparr>)"
  by (simp add: recombine_def Let_def component_sum_def weighted_sum_def assms)



lemma update_results_length: "length (fst (update_results cfg up dict rs)) = length rs"
  by (induction rs) (auto simp: split_beta split: option.splits sum.splits)

lemma update_results_frame:
  assumes "i < length rs" and "dict (r_session_id (rs ! i)) = None"
  shows "fst (update_results cfg up dict rs) ! i = rs ! i"
  using assms
proof (induction rs arbitrary: i)
  case Nil
  then show ?case by simp
next
  case (Cons r rs)
  show ?case
  proof (cases i)
    case 0
    with Cons.prems show ?thesis by (simp add: split_beta)
  next
    case (Suc j)
    with Cons.prems have "fst (update_results cfg up dict rs) ! j = rs ! j"
      by (intro Cons.IH) simp_all
    with Suc show ?thesis
      by (auto simp: split_beta split: option.splits sum.splits)
  qed
qed



lemma update_results_empty:
  assumes "\<forall>k. dict k = None"
  shows "update_results cfg up dict rs = (rs, None)"
  using assms by (induction rs) simp_all


lemma combine_results:
  "results (fst (combine_error_analyses cfg up basic ai)) =
     (case ai of
        None \<Rightarrow> results basic
      | Some ais \<Rightarrow> fst (update_results cfg up (ai_results_dict ais) (results basic)))"
  and combine_raises:
  "snd (combine_error_analyses cfg up basic ai) =
     (case ai of
        None \<Rightarrow> None
      | Some ais \<Rightarrow> snd (update_results cfg up (ai_results_dict ais) (results basic)))"
proof -
  have e: "update_results cfg up (ai_results_dict []) (results basic) = (results basic, None)"
    by (rule update_results_empty) (simp add: ai_results_dict_def)
  show "results (fst (combine_error_analyses cfg up basic ai)) =
     (case ai of
        None \<Rightarrow> results basic
      | Some ais \<Rightarrow> fst (update_results cfg up (ai_results_dict ais) (results basic)))"
    using e
    by (auto simp: combine_error_analyses_def Let_def split_beta
          split: option.splits list.splits)
  show "snd (combine_error_analyses cfg up basic ai) =
     (case ai of
        None \<Rightarrow> None
      | Some ais \<Rightarrow> snd (update_results cfg up (ai_results_dict ais) (results basic)))"
    using e
    by (auto simp: combine_error_analyses_def Let_def split_beta
          split: option.splits list.splits)
qed

lemma weighted_sum_in_range:
  assumes w: "weights_nonneg w" and t: "weights_total w \<le> 1"
    and p: "in_range p" and b: "in_range b" and s: "in_range s" and a: "in_range a"
  shows "in_range (weighted_sum w p b s a)"
proof -
  from w p b s a have lo: "0 \<le> weighted_sum w p b s a"
    by (simp add: weights_nonneg_def in_range_def weighted_sum_def)
  from w p have 1: "p * w_phrase_matching w \<le> 100 * w_phrase_matching w"
    by (simp add: weights_nonneg_def in_range_def mult_right_mono)
  from w b have 2: "b * w_behavioral_patterns w \<le> 100 * w_behavioral_patterns w"
    by (simp add: weights_nonneg_def in_range_def mult_right_mono)
  from w s have 3: "s * w_sentiment_correlation w \<le> 100 * w_sentiment_correlation w"
    by (simp add: weights_nonneg_def in_range_def mult_right_mono)
  from w a have 4: "a * w_ai_analysis w \<le> 100 * w_ai_analysis w"
    by (simp add: weights_nonneg_def in_range_def mult_right_mono)
  from 1 2 3 4 t have "weighted_sum w p b s a \<le> 100"
    unfolding weighted_sum_def weights_total_def by linarith
  with lo show ?thesis by (simp add: in_range_def)
qed

lemma analyze_conversation_in_range:
  assumes "payload_in_range outcome"
  shows "score_in_range (ai_score (analyze_conversation s outcome))"
  using assms
  by (auto simp: analyze_conversation_def degraded_def get_default_def payload_in_range_def
        score_in_range_def in_range_def split: gemini_outcome.splits option.splits)

text \<open>
  C3, as the code has it. The phrase, behavioural and sentiment scores lie in
  [0,100]; so does the pre-AI score when no weight is negative. The AI score is the
  \<open>error_score\<close> of the judge's payload as it comes (50 if absent): it lies in
  [0,100] when the payload's does. The recombined score lies in [0,100] when the AI
  score does, no weight is negative and the four weights sum to at most 1.
\<close>

theorem scores_in_range:
  "(\<forall>r. detect_phrase_errors py d s = Inr r \<longrightarrow> in_range (p_score r)) \<and>
   in_range (b_score (detect_behavioral_errors py cfg s)) \<and>
   in_range (s_score (detect_sentiment_errors py s)) \<and>
   (weights_nonneg (weights d) \<longrightarrow>
      (\<forall>r. analyze_session py cfg d s = Inr r \<longrightarrow> in_range (confidence_score r))) \<and>
   (payload_in_range outcome \<longrightarrow> score_in_range (ai_score (analyze_conversation s outcome))) \<and>
   (weights_nonneg (ERROR_WEIGHTS cfg) \<and> weights_total (ERROR_WEIGHTS cfg) \<le> 1
      \<and> score_in_range (ai_score a) \<longrightarrow>
      (\<forall>r. analyze_session py cfg d s = Inr r \<longrightarrow>
           (\<exists>r'. recombine cfg up a r = Inr r' \<and> in_range (confidence_score r'))))"
proof (intro conjI impI allI)
  fix r assume "detect_phrase_errors py d s = Inr r"
  then show "in_range (p_score r)" by (rule detect_phrase_errors_in_range)
next
  show "in_range (b_score (detect_behavioral_errors py cfg s))"
    by (rule behavioral_score_in_range)
next
  show "in_range (s_score (detect_sentiment_errors py s))"
    by (rule sentiment_score_in_range)
next
  fix r assume w: "weights_nonneg (weights d)" and r: "analyze_session py cfg d s = Inr r"
  from calculate_combined_score_in_range [OF w analyze_session_in_range [OF r]]
  show "in_range (confidence_score r)"
    using analyze_session_components(5) [OF r] by simp
next
  assume "payload_in_range outcome"
  then show "score_in_range (ai_score (analyze_conversation s outcome))"
    by (rule analyze_conversation_in_range)
next
  fix r
  assume h: "weights_nonneg (ERROR_WEIGHTS cfg) \<and> weights_total (ERROR_WEIGHTS cfg) \<le> 1
               \<and> score_in_range (ai_score a)"
    and r: "analyze_session py cfg d s = Inr r"
  from h have w: "weights_nonneg (ERROR_WEIGHTS cfg)"
    and t: "weights_total (ERROR_WEIGHTS cfg) \<le> 1" by simp_all
  from h obtain v where v: "ai_score a = JNumber v" and a: "in_range v"
    by (cases "ai_score a") (simp_all add: score_in_range_def)
  from weighted_sum_in_range [OF w t analyze_session_in_range [OF r] a]
  have "in_range (component_sum (ERROR_WEIGHTS cfg) r v)"
    by (simp add: component_sum_def)
  then have "in_range (float_round2 higher (component_sum (ERROR_WEIGHTS cfg) r v))" for higher
    by (rule float_round2_in_range)
  then show "\<exists>r'. recombine cfg up a r = Inr r' \<and> in_range (confidence_score r')"
    by (simp add: recombine_number [OF v])
qed

lemma default_weights_ok:
  "weights_nonneg (ERROR_WEIGHTS default_settings)"
  "weights_total (ERROR_WEIGHTS default_settings) = 1"
  "weights (detector_demo) = ERROR_WEIGHTS default_settings"
  by (simp_all add: default_settings_def detector_demo_def weights_nonneg_def weights_total_def)

theorem scores_in_range_witness:
  "weights_nonneg (ERROR_WEIGHTS default_settings) \<and>
   weights_total (ERROR_WEIGHTS default_settings) \<le> 1 \<and>
   payload_in_range (payload 50) \<and>
   score_in_range (ai_score (analyze_conversation session_angry (payload 50))) \<and>
   (\<exists>r r'. analyze_session ascii_str default_settings detector_demo session_angry = Inr r \<and>
        in_range (p_score (phrase_detection r)) \<and>
        in_range (confidence_score r) \<and>
        recombine default_settings ties_up
          (analyze_conversation session_angry (payload 50)) r = Inr r' \<and>
        in_range (confidence_score r'))"
proof -
  let ?a = "analyze_conversation session_angry (payload 50)"
  have pl: "payload_in_range (payload 50)"
    by (simp add: payload_def payload_in_range_def score_in_range_def in_range_def)
  have ok: "lexicon_ok (error_phrases detector_demo)"
    using lexicon_demo_ok by (simp add: detector_demo_def)
  from analyze_session_returns [OF ok] obtain r where
    r: "analyze_session ascii_str default_settings detector_demo session_angry = Inr r" by blast
  note t = scores_in_range [where py = ascii_str and d = detector_demo and s = session_angry
      and cfg = default_settings and outcome = "payload 50" and a = ?a and up = ties_up]
  from t pl have ai: "score_in_range (ai_score ?a)" by blast
  from t r analyze_session_components(1) [OF r]
  have p: "in_range (p_score (phrase_detection r))" by blast
  from t r default_weights_ok have c: "in_range (confidence_score r)" by simp
  from t r ai default_weights_ok
  obtain r' where "recombine default_settings ties_up ?a r = Inr r'"
    and "in_range (confidence_score r')" by auto
  with r p c ai pl default_weights_ok show ?thesis by auto
qed

text \<open>
  C3 as stated fails: nothing bounds the \<open>error_score\<close> the judge returns. With the
  payload score 150 the AI score is 150, and the recombined score of a failed session
  with phrase score 100, behavioural score 40 and negative sentiment is 100.5.
\<close>

theorem scores_in_range_counterexample:
  "ai_score (analyze_conversation session_angry (payload 150)) = JNumber 150 \<and>
   \<not> score_in_range (ai_score (analyze_conversation session_angry (payload 150))) \<and>
   map_sum id (scores_after_ai default_settings ties_up
                 (Some [analyze_conversation session_angry (payload 150)]))
     (detect_errors_step ascii_str default_settings fs_demo [session_angry]) = Inr [201 / 2] \<and>
   \<not> in_range (201 / 2)"
  by (simp add: pipeline_defs combine_defs ai_defs ensemble_defs phrase_defs behavior_defs
        sentiment_defs demo_defs round_defs in_range_def score_in_range_def)

section \<open>The detection step scores every session\<close>

lemma analyze_loop_ok:
  assumes "lexicon_ok (error_phrases d)"
  shows "\<exists>rs' c'. analyze_loop py cfg d ss (rs, c) = Inr (rs', c') \<and>
           map Inr rs' = map Inr rs @ map (analyze_session py cfg d) ss"
proof (induction ss arbitrary: rs c)
  case Nil
  show ?case by simp
next
  case (Cons s ss)
  from analyze_session_returns [OF assms] obtain r where
    r: "analyze_session py cfg d s = Inr r" by blast
  from Cons.IH [of "rs @ [r]" "categorize r c"] obtain rs' c' where
    l: "analyze_loop py cfg d ss (rs @ [r], categorize r c) = Inr (rs', c')"
    and m: "map Inr rs' = map Inr (rs @ [r]) @ map (analyze_session py cfg d) ss"
    by blast
  from r l m show ?case by simp
qed

lemma analyze_all_sessions_ok:
  assumes "lexicon_ok (error_phrases d)"
  shows "\<exists>a. analyze_all_sessions py cfg d ss = Inr a \<and>
           map Inr (results a) = map (analyze_session py cfg d) ss \<and>
           length (results a) = length ss"
proof -
  from analyze_loop_ok [OF assms, where py = py and cfg = cfg and ss = ss and rs = "[]" and c = "[]"]
  obtain rs' c' where
    l: "analyze_loop py cfg d ss ([], []) = Inr (rs', c')"
    and m: "map Inr rs' = map (analyze_session py cfg d) ss"
    by auto
  from m have "length rs' = length ss" by (metis length_map)
  with l m show ?thesis by (simp add: analyze_all_sessions_def)
qed

lemma detect_errors_step_ok:
  assumes "fs ''config/error_phrases.json'' = Some lx" and "lexicon_ok lx"
  shows "\<exists>a. detect_errors_step py cfg fs ss = Inr a \<and>
           map Inr (results a) =
             map (analyze_session py cfg
                    \<lparr>error_phrases = lx, weights = ERROR_WEIGHTS cfg,
                     thresholds = ERROR_THRESHOLDS cfg\<rparr>) ss \<and>
           length (results a) = length ss"
proof -
  let ?d = "\<lparr>error_phrases = lx, weights = ERROR_WEIGHTS cfg, thresholds = ERROR_THRESHOLDS cfg\<rparr>"
  have i: "ErrorDetector_init cfg fs ''config/error_phrases.json'' = Inr ?d"
    using assms(1) by (simp add: ErrorDetector_init_def load_error_phrases_def)
  have "lexicon_ok (error_phrases ?d)" using assms(2) by simp
  from analyze_all_sessions_ok [OF this, where py = py and cfg = cfg and ss = ss] i
  show ?thesis by (simp add: detect_errors_step_def)
qed

lemma detect_errors_step_demo:
  "\<exists>a. detect_errors_step ascii_str default_settings fs_demo ss = Inr a \<and>
       map Inr (results a) = map (analyze_session ascii_str default_settings detector_demo) ss \<and>
       length (results a) = length ss"
proof -
  have f: "fs_demo ''config/error_phrases.json'' = Some lexicon_demo"
    by (simp add: fs_demo_def)
  from detect_errors_step_ok
         [where py = ascii_str and fs = fs_demo and lx = lexicon_demo and cfg = default_settings
           and ss = ss]
       f lexicon_demo_ok
  show ?thesis by (simp add: detector_demo_def)
qed


text \<open>
  C9, as the code has it. \<open>ErrorDetector()\<close> stores the weights and thresholds of the
  settings as they are and fails only when the phrase file cannot be loaded; with a
  loadable lexicon of the three categories the detection step scores every session,
  whatever the weights and thresholds.
\<close>

theorem configuration_not_validated:
  "ErrorDetector_init cfg fs path =
     (case fs path of
        None \<Rightarrow> Inl FileNotFoundError
      | Some lx \<Rightarrow>
          Inr \<lparr>error_phrases = lx, weights = ERROR_WEIGHTS cfg,
               thresholds = ERROR_THRESHOLDS cfg\<rparr>) \<and>
   (\<forall>lx. fs ''config/error_phrases.json'' = Some lx \<and> lexicon_ok lx \<longrightarrow>
      (\<exists>a. detect_errors_step py cfg fs ss = Inr a \<and> length (results a) = length ss))"
proof (intro conjI allI impI)
  show "ErrorDetector_init cfg fs path =
     (case fs path of
        None \<Rightarrow> Inl FileNotFoundError
      | Some lx \<Rightarrow>
          Inr \<lparr>error_phrases = lx, weights = ERROR_WEIGHTS cfg,
               thresholds = ERROR_THRESHOLDS cfg\<rparr>)"
    by (simp add: ErrorDetector_init_def load_error_phrases_def split: option.splits)
next
  fix lx
  assume "fs ''config/error_phrases.json'' = Some lx \<and> lexicon_ok lx"
  with detect_errors_step_ok [where py = py and fs = fs and lx = lx and cfg = cfg and ss = ss]
  show "\<exists>a. detect_errors_step py cfg fs ss = Inr a \<and> length (results a) = length ss"
    by blast
qed

theorem configuration_not_validated_witness:
  "fs_demo ''config/error_phrases.json'' = Some lexicon_demo \<and> lexicon_ok lexicon_demo \<and>
   \<not> config_valid settings_unchecked \<and>
   map_sum id (length \<circ> results)
     (detect_errors_step ascii_str settings_unchecked fs_demo [session_quiet, session_brief]) = Inr 2"
proof -
  have f: "fs_demo ''config/error_phrases.json'' = Some lexicon_demo"
    by (simp add: fs_demo_def)
  have n: "\<not> config_valid settings_unchecked"
    by (simp add: config_valid_def settings_unchecked_def default_settings_def
          weights_total_def in_range_def)
  from configuration_not_validated
         [where py = ascii_str and cfg = settings_unchecked and fs = fs_demo and path = "''x''"
           and ss = "[session_quiet, session_brief]"]
       f lexicon_demo_ok
  obtain a where
    "detect_errors_step ascii_str settings_unchecked fs_demo [session_quiet, session_brief] = Inr a"
    and "length (results a) = length [session_quiet, session_brief]"
    by blast
  then have "map_sum id (length \<circ> results)
     (detect_errors_step ascii_str settings_unchecked fs_demo [session_quiet, session_brief]) = Inr 2"
    by simp
  with f n lexicon_demo_ok show ?thesis by simp
qed

text \<open>
  C9 as stated fails: with every weight set to 1 and the thresholds 700 and -5 the
  detector is constructed and the session is scored (5, flagged as an error).
\<close>

theorem configuration_fail_fast_counterexample:
  "\<not> config_valid settings_unchecked \<and>
   \<not> isl (ErrorDetector_init settings_unchecked fs_demo ''config/error_phrases.json'') \<and>
   map_sum id summary_scores (detect_errors_step ascii_str settings_unchecked fs_demo [session_quiet])
     = Inr [5] \<and>
   map_sum id (flags_after_ai settings_unchecked ties_up None)
     (detect_errors_step ascii_str settings_unchecked fs_demo [session_quiet]) = Inr [True]"
  by (simp add: pipeline_defs combine_defs flags_after_ai_def ensemble_defs phrase_defs
        behavior_defs sentiment_defs demo_defs round_defs config_valid_def weights_total_def
        in_range_def)
section \<open>Recombination on the results of the detection step\<close>



text \<open>
  C10. Recombination keeps one result per session, and a result whose session has no
  judgment with \<open>analyzed\<close> set (only degraded records, or none at all) is left
  as it was: score, tier, \<open>has_error\<close> and the absent AI judgment included. This
  holds of the results as the call leaves them, whether it returns or raises.
\<close>

theorem recombination_frame:
  "length (results (fst (combine_error_analyses cfg up basic ai))) = length (results basic) \<and>
   (\<forall>i<length (results basic).
      (\<forall>a\<in>set (case ai of None \<Rightarrow> [] | Some ais \<Rightarrow> ais).
          analyzed a \<longrightarrow> ai_session_id a \<noteq> r_session_id (results basic ! i)) \<longrightarrow>
      results (fst (combine_error_analyses cfg up basic ai)) ! i = results basic ! i)"
proof (intro conjI allI impI)
  show "length (results (fst (combine_error_analyses cfg up basic ai)))
        = length (results basic)"
    by (simp add: combine_results update_results_length split: option.splits)
next
  fix i
  assume i: "i < length (results basic)"
    and n: "\<forall>a\<in>set (case ai of None \<Rightarrow> [] | Some ais \<Rightarrow> ais).
              analyzed a \<longrightarrow> ai_session_id a \<noteq> r_session_id (results basic ! i)"
  show "results (fst (combine_error_analyses cfg up basic ai)) ! i = results basic ! i"
  proof (cases ai)
    case None
    then show ?thesis by (simp add: combine_results)
  next
    case (Some ais)
    with n have "ai_results_dict ais (r_session_id (results basic ! i)) = None"
      by (intro ai_results_dict_None) simp
    with Some i show ?thesis by (simp add: combine_results update_results_frame)
  qed
qed

theorem recombination_frame_witness:
  "\<not> analyzed (degraded session_quiet ''timeout'') \<and>
   map_sum id (scores_after_ai default_settings ties_up
                 (Some [degraded session_quiet ''timeout'']))
     (detect_errors_step ascii_str default_settings fs_demo [session_quiet])
   = map_sum id summary_scores
       (detect_errors_step ascii_str default_settings fs_demo [session_quiet])"
proof -
  let ?ai = "Some [degraded session_quiet ''timeout'']"
  have d: "\<not> analyzed (degraded session_quiet ''timeout'')" by (simp add: degraded_def)
  from detect_errors_step_demo [of "[session_quiet]"] obtain a where
    a: "detect_errors_step ascii_str default_settings fs_demo [session_quiet] = Inr a"
    and l: "length (results a) = 1"
    by auto
  from recombination_frame
         [where cfg = default_settings and up = ties_up and basic = a and ai = ?ai] d l
  have "length (results (fst (combine_error_analyses default_settings ties_up a ?ai))) = 1"
    and "results (fst (combine_error_analyses default_settings ties_up a ?ai)) ! 0
         = results a ! 0"
    by simp_all
  with l have "results (fst (combine_error_analyses default_settings ties_up a ?ai)) = results a"
    by (intro nth_equalityI) auto
  with a d show ?thesis by (simp add: scores_after_ai_def summary_scores_def)
qed
section \<open>The AI phase: isolated failures\<close>







section \<open>Selection: determinism\<close>

text \<open>
  C6. The selection does not depend on the state of the generator at the call: the
  generator is reseeded with 42 before the first sample. Hence equal sessions, results,
  target rate and seed give the same selection (and leave the same generator state),
  also when one invocation follows another.
\<close>

theorem selection_deterministic:
  "select_sessions_for_analysis cfg rnd g sessions rs
     = select_sessions_for_analysis cfg rnd g' sessions rs \<and>
   fst (select_sessions_for_analysis cfg rnd
          (snd (select_sessions_for_analysis cfg rnd g sessions rs)) sessions rs)
     = fst (select_sessions_for_analysis cfg rnd g sessions rs)"
  by (simp add: select_sessions_for_analysis_def)

theorem selection_deterministic_witness:
  "select_after_detection ascii_str default_settings fs_demo random_demo 0
     [session_quiet, session_brief, session_talk, session_angry]
   = select_after_detection ascii_str default_settings fs_demo random_demo 7
       [session_quiet, session_brief, session_talk, session_angry]"
  unfolding select_after_detection_def
  using selection_deterministic [of default_settings random_demo 0 _ _ 7]
  by (simp split: sum.splits)
section \<open>Selection: no duplicates\<close>

lemmas select_defs =
  select_after_detection_def select_sessions_for_analysis_def fill_to_target_def
  select_by_priority_def target_total_def sample_size_def remaining_sessions_def
  neutral_sessions_def medium_confidence_def negative_sentiment_def high_confidence_def
  sessions_dict_def ids_def py_int_def

lemma sub_mset_distinct:
  assumes "distinct xs" and "mset ys \<subseteq># mset xs"
  shows "distinct ys"
proof -
  have "count (mset ys) a = (if a \<in> set ys then 1 else 0)" for a
  proof -
    from assms(2) have "count (mset ys) a \<le> count (mset xs) a" by (rule mset_subset_eq_count)
    also from assms(1) have "\<dots> \<le> 1" by (simp add: distinct_count_atmost_1)
    finally have le: "count (mset ys) a \<le> 1" .
    show ?thesis
    proof (cases "a \<in> set ys")
      case True
      then have "count (mset ys) a \<noteq> 0" by (simp add: count_eq_zero_iff)
      with le have "count (mset ys) a = 1" by linarith
      with True show ?thesis by simp
    next
      case False
      then show ?thesis by (simp add: count_eq_zero_iff)
    qed
  qed
  then show ?thesis unfolding distinct_count_atmost_1 by blast
qed

lemma sub_mset_ids:
  assumes "mset new \<subseteq># mset pool"
  shows "mset (ids new) \<subseteq># mset (ids pool)" and "set new \<subseteq> set pool"
    and "set (ids new) \<subseteq> set (ids pool)"
proof -
  from assms have "image_mset sid (mset new) \<subseteq># image_mset sid (mset pool)"
    by (rule image_mset_subseteq_mono)
  then show m: "mset (ids new) \<subseteq># mset (ids pool)" by (simp add: ids_def)
  from assms show "set new \<subseteq> set pool" by (metis set_mset_mono set_mset_mset)
  from m show "set (ids new) \<subseteq> set (ids pool)" by (metis set_mset_mono set_mset_mset)
qed

lemma sessions_dict_lookup:
  assumes "distinct (map sid ss)" and "sessions_dict ss k \<noteq> None"
  shows "the (sessions_dict ss k) \<in> set ss" and "sid (the (sessions_dict ss k)) = k"
proof -
  let ?kv = "rev (map (\<lambda>s. (sid s, s)) ss)"
  from assms(2) obtain s where s: "map_of ?kv k = Some s"
    by (auto simp: sessions_dict_def)
  then have "(k, s) \<in> set ?kv" by (rule map_of_SomeD)
  then have "s \<in> set ss" and "sid s = k" by auto
  with s show "the (sessions_dict ss k) \<in> set ss" and "sid (the (sessions_dict ss k)) = k"
    by (simp_all add: sessions_dict_def)
qed

lemma sessions_dict_Some:
  assumes "distinct (map sid ss)" and "sessions_dict ss k = Some s"
  shows "sid s = k" and "s \<in> set ss"
  using sessions_dict_lookup [OF assms(1), of k] assms(2) by simp_all

lemma high_confidence_ok:
  assumes "distinct (map sid ss)" and "distinct (map r_session_id rs)"
  shows "distinct (ids (high_confidence ss rs))" and "set (high_confidence ss rs) \<subseteq> set ss"
proof -
  let ?P = "\<lambda>r. confidence_level r = High \<and> sessions_dict ss (r_session_id r) \<noteq> None"
  have "ids (high_confidence ss rs) = map r_session_id (filter ?P rs)"
    unfolding ids_def high_confidence_def
    by (simp add: sessions_dict_lookup(2) [OF assms(1)] cong: map_cong)
  with assms(2) show "distinct (ids (high_confidence ss rs))"
    by (simp add: distinct_map_filter)
  show "set (high_confidence ss rs) \<subseteq> set ss"
    unfolding high_confidence_def using sessions_dict_lookup(1) [OF assms(1)] by auto
qed

lemma medium_confidence_ok:
  assumes "distinct (map sid ss)" and "distinct (map r_session_id rs)"
  shows "distinct (ids (medium_confidence ss rs sel))"
    and "set (medium_confidence ss rs sel) \<subseteq> set ss"
    and "set (ids (medium_confidence ss rs sel)) \<inter> set (ids sel) = {}"
proof -
  let ?P = "\<lambda>r. confidence_level r = Medium \<and> sessions_dict ss (r_session_id r) \<noteq> None
                \<and> sid (the (sessions_dict ss (r_session_id r))) \<notin> set (ids sel)"
  have e: "ids (medium_confidence ss rs sel) = map r_session_id (filter ?P rs)"
    unfolding medium_confidence_def
    by (simp add: ids_def sessions_dict_lookup(2) [OF assms(1)] cong: map_cong)
  with assms(2) show "distinct (ids (medium_confidence ss rs sel))"
    by (simp add: distinct_map_filter)
  show "set (medium_confidence ss rs sel) \<subseteq> set ss"
    unfolding medium_confidence_def using sessions_dict_lookup(1) [OF assms(1)] by auto
  show "set (ids (medium_confidence ss rs sel)) \<inter> set (ids sel) = {}"
    unfolding e using sessions_dict_Some(1) [OF assms(1)] by fastforce
qed

lemma unselected_ok:
  assumes "distinct (map sid ss)"
  shows "distinct (ids (filter (\<lambda>s. P s \<and> sid s \<notin> set (ids sel)) ss))"
    and "set (filter (\<lambda>s. P s \<and> sid s \<notin> set (ids sel)) ss) \<subseteq> set ss"
    and "set (ids (filter (\<lambda>s. P s \<and> sid s \<notin> set (ids sel)) ss)) \<inter> set (ids sel) = {}"
  using assms by (auto simp: ids_def distinct_map_filter)

lemma remaining_ok:
  assumes "distinct (map sid ss)"
  shows "distinct (ids (remaining_sessions ss sel))"
    and "set (remaining_sessions ss sel) \<subseteq> set ss"
    and "set (ids (remaining_sessions ss sel)) \<inter> set (ids sel) = {}"
  using assms by (auto simp: ids_def remaining_sessions_def distinct_map_filter)

lemma extend_ok:
  assumes "distinct (ids sel)" and "set sel \<subseteq> set ss"
    and "distinct (ids pool)" and "set pool \<subseteq> set ss"
    and "set (ids pool) \<inter> set (ids sel) = {}"
    and "mset new \<subseteq># mset pool"
  shows "distinct (ids (sel @ new))" and "set (sel @ new) \<subseteq> set ss"
proof -
  note n = sub_mset_ids [OF assms(6)]
  from sub_mset_distinct [OF assms(3) n(1)] have "distinct (ids new)" .
  moreover from n(3) assms(5) have "set (ids sel) \<inter> set (ids new) = {}" by auto
  ultimately show "distinct (ids (sel @ new))" using assms(1) by (simp add: ids_def)
  from n(2) assms(2,4) show "set (sel @ new) \<subseteq> set ss" by auto
qed

lemma sample_size_le: "sample_size n f \<le> n"
  by (simp add: sample_size_def)

lemma select_by_priority_ok:
  assumes d: "distinct (map sid ss)" and dr: "distinct (map r_session_id rs)"
    and ok: "sample_ok rnd"
  shows "distinct (ids (fst (select_by_priority rnd ss rs)))"
    and "set (fst (select_by_priority rnd ss rs)) \<subseteq> set ss"
    and "set (high_confidence ss rs) \<subseteq> set (fst (select_by_priority rnd ss rs))"
    and "\<forall>s\<in>set ss. analyse_sentimental s = Some ''Negativo'' \<longrightarrow>
           sid s \<in> set (ids (fst (select_by_priority rnd ss rs)))"
proof -
  define s1 where "s1 = high_confidence ss rs"
  define s2 where "s2 = s1 @ negative_sentiment ss s1"
  define mp where "mp = medium_confidence ss rs s2"
  define ms where
    "ms = random_sample rnd (random_seed rnd 42) mp (sample_size (length mp) (3 / 10))"
  define s3 where "s3 = s2 @ fst ms"
  define np where "np = neutral_sessions ss s3"
  define ns where "ns = random_sample rnd (snd ms) np (sample_size (length np) (10 / 100))"
  have sel: "fst (select_by_priority rnd ss rs) = s3 @ fst ns"
    by (simp add: select_by_priority_def Let_def split_beta s1_def s2_def mp_def ms_def
          s3_def np_def ns_def)
  have 1: "distinct (ids s1)" "set s1 \<subseteq> set ss"
    unfolding s1_def by (rule high_confidence_ok [OF d dr])+
  have 2: "distinct (ids s2)" "set s2 \<subseteq> set ss"
    unfolding s2_def negative_sentiment_def
    by (rule extend_ok [OF 1 unselected_ok [OF d] subset_mset.order_refl])+
  from ok have "mset (fst ms) \<subseteq># mset mp"
    unfolding ms_def sample_ok_def using sample_size_le by blast
  then have 3: "distinct (ids s3)" "set s3 \<subseteq> set ss"
    unfolding s3_def mp_def by (rule extend_ok [OF 2 medium_confidence_ok [OF d dr]])+
  from ok have "mset (fst ns) \<subseteq># mset np"
    unfolding ns_def sample_ok_def using sample_size_le by blast
  then have 4: "distinct (ids (s3 @ fst ns))" "set (s3 @ fst ns) \<subseteq> set ss"
    unfolding np_def neutral_sessions_def by (rule extend_ok [OF 3 unselected_ok [OF d]])+
  from 4 show "distinct (ids (fst (select_by_priority rnd ss rs)))"
    and "set (fst (select_by_priority rnd ss rs)) \<subseteq> set ss"
    by (simp_all add: sel)
  show "set (high_confidence ss rs) \<subseteq> set (fst (select_by_priority rnd ss rs))"
    by (auto simp: sel s3_def s2_def s1_def)
  show "\<forall>s\<in>set ss. analyse_sentimental s = Some ''Negativo'' \<longrightarrow>
           sid s \<in> set (ids (fst (select_by_priority rnd ss rs)))"
  proof (intro ballI impI)
    fix s assume s: "s \<in> set ss" "analyse_sentimental s = Some ''Negativo''"
    have "sid s \<in> set (ids s2)"
    proof (cases "sid s \<in> set (ids s1)")
      case True
      then show ?thesis by (simp add: s2_def ids_def)
    next
      case False
      with s have "s \<in> set (negative_sentiment ss s1)" by (simp add: negative_sentiment_def)
      then show ?thesis by (simp add: s2_def ids_def)
    qed
    then show "sid s \<in> set (ids (fst (select_by_priority rnd ss rs)))"
      by (auto simp: sel s3_def ids_def)
  qed
qed

lemma fill_to_target_ok:
  assumes d: "distinct (map sid ss)" and ok: "sample_ok rnd"
    and s: "distinct (ids sel)" "set sel \<subseteq> set ss"
  shows "distinct (ids (fst (fill_to_target cfg rnd ss (sel, g))))"
    and "set (fst (fill_to_target cfg rnd ss (sel, g))) \<subseteq> set ss"
    and "prefix sel (fst (fill_to_target cfg rnd ss (sel, g)))"
    and "length (fst (fill_to_target cfg rnd ss (sel, g)))
           \<le> max (length sel) (nat (target_total cfg ss))"
proof -
  define needed where "needed = max 0 (target_total cfg ss - int (length sel))"
  define pool where "pool = remaining_sessions ss sel"
  define k where "k = nat (min needed (int (length pool)))"
  define new where "new = fst (random_sample rnd g pool k)"
  have f: "fst (fill_to_target cfg rnd ss (sel, g)) = (if needed > 0 then sel @ new else sel)"
    by (simp add: fill_to_target_def Let_def split_beta needed_def pool_def k_def new_def)
  have "k \<le> length pool" by (simp add: k_def)
  with ok have m: "mset new \<subseteq># mset pool" and l: "length new = k"
    unfolding new_def sample_ok_def by blast+
  have e: "distinct (ids (sel @ new))" "set (sel @ new) \<subseteq> set ss"
    using m unfolding pool_def by (rule extend_ok [OF s remaining_ok [OF d]])+
  from e s show "distinct (ids (fst (fill_to_target cfg rnd ss (sel, g))))"
    and "set (fst (fill_to_target cfg rnd ss (sel, g))) \<subseteq> set ss"
    by (simp_all add: f)
  show "prefix sel (fst (fill_to_target cfg rnd ss (sel, g)))" by (simp add: f)
  have "int (length sel) + int k \<le> target_total cfg ss" if p: "needed > 0"
  proof -
    from p have n: "needed = target_total cfg ss - int (length sel)"
      by (simp add: needed_def max_def split: if_splits)
    from p have "int k \<le> needed" by (simp add: k_def)
    with n show ?thesis by linarith
  qed
  then have "needed > 0 \<Longrightarrow> length sel + k \<le> nat (target_total cfg ss)" by linarith
  with l show "length (fst (fill_to_target cfg rnd ss (sel, g)))
           \<le> max (length sel) (nat (target_total cfg ss))"
    by (auto simp: f)
qed

lemma analyze_result_ids:
  assumes "map Inr rs = map (analyze_session py cfg d) ss"
  shows "map r_session_id rs = map sid ss"
proof (rule nth_equalityI)
  from assms show l: "length (map r_session_id rs) = length (map sid ss)"
    by (metis length_map)
  fix i assume "i < length (map r_session_id rs)"
  with l have i: "i < length rs" "i < length ss" by simp_all
  from assms have "map Inr rs ! i = map (analyze_session py cfg d) ss ! i" by simp
  with i have "analyze_session py cfg d (ss ! i) = Inr (rs ! i)" by simp
  from analyze_session_components(4) [OF this] i
  show "map r_session_id rs ! i = map sid ss ! i" by simp
qed

lemma random_demo_ok: "sample_ok random_demo"
proof -
  have "\<And>k (pool :: session list). mset (take k pool) \<subseteq># mset pool"
    by (metis append_take_drop_id mset_append mset_subset_eq_add_left)
  then show ?thesis by (simp add: sample_ok_def random_demo_def)
qed

text \<open>
  C7, as the code has it. For a non-empty population with distinct identifiers, at
  most one pre-AI result per identifier and a sampler that returns elements from
  distinct positions, the selection has no duplicate identifier and holds sessions of
  the population only, so it is no larger than the population. The target rate bounds
  the fifth step alone: the selection starts with the sessions of the first four steps,
  among them every high-confidence and every negative-sentiment session, and is longer
  than that only up to the target.
\<close>

theorem selection_no_duplicates:
  assumes "distinct (map sid sessions)" and "distinct (map r_session_id rs)"
    and "sample_ok rnd" and "sessions \<noteq> []"
  shows "\<exists>selected.
     fst (select_sessions_for_analysis cfg rnd g0 sessions rs) = Inr selected \<and>
     distinct (ids selected) \<and> set selected \<subseteq> set sessions \<and>
     length selected \<le> length sessions \<and>
     prefix (fst (select_by_priority rnd sessions rs)) selected \<and>
     length selected
       \<le> max (length (fst (select_by_priority rnd sessions rs)))
            (nat (target_total cfg sessions)) \<and>
     set (high_confidence sessions rs) \<subseteq> set selected \<and>
     (\<forall>s\<in>set sessions. analyse_sentimental s = Some ''Negativo'' \<longrightarrow>
          sid s \<in> set (ids selected))"
proof -
  obtain p4 g where p: "select_by_priority rnd sessions rs = (p4, g)"
    by (cases "select_by_priority rnd sessions rs")
  note a = select_by_priority_ok [OF assms(1,2,3), unfolded p fst_conv]
  note b = fill_to_target_ok [OF assms(1,3) a(1,2), of cfg g]
  let ?sel = "fst (fill_to_target cfg rnd sessions (p4, g))"
  have r: "fst (select_sessions_for_analysis cfg rnd g0 sessions rs) = Inr ?sel"
    using assms(4) by (simp add: select_sessions_for_analysis_def p split_beta)
  have "length ?sel = card (set (ids ?sel))"
    using distinct_card [OF b(1)] by (simp add: ids_def)
  also have "\<dots> \<le> card (set (ids sessions))"
    using b(2) by (intro card_mono) (auto simp: ids_def)
  also have "\<dots> \<le> length sessions"
    by (metis card_length ids_def length_map)
  finally have len: "length ?sel \<le> length sessions" .
  from b(3) have sub: "set p4 \<subseteq> set ?sel" by (rule set_mono_prefix)
  then have "set (ids p4) \<subseteq> set (ids ?sel)" by (auto simp: ids_def)
  with a(3,4) sub have hi: "set (high_confidence sessions rs) \<subseteq> set ?sel"
    and neg: "\<forall>s\<in>set sessions. analyse_sentimental s = Some ''Negativo'' \<longrightarrow>
                sid s \<in> set (ids ?sel)"
    by auto
  from r b len hi neg show ?thesis by (simp add: p)
qed

theorem selection_no_duplicates_witness:
  "distinct (map sid [session_quiet, session_brief, session_talk, session_angry]) \<and>
   sample_ok random_demo \<and>
   (\<exists>chosen. select_after_detection ascii_str default_settings fs_demo random_demo 0
                [session_quiet, session_brief, session_talk, session_angry] = Inr chosen \<and>
              distinct chosen \<and> length chosen \<le> 4)"
proof -
  let ?ss = "[session_quiet, session_brief, session_talk, session_angry]"
  have d: "distinct (map sid ?ss)" by (simp add: demo_defs)
  have ne: "?ss \<noteq> []" by simp
  from detect_errors_step_demo [of ?ss] obtain a where
    a: "detect_errors_step ascii_str default_settings fs_demo ?ss = Inr a"
    and m: "map Inr (results a) = map (analyze_session ascii_str default_settings detector_demo) ?ss"
    by blast
  from analyze_result_ids [OF m] d have dr: "distinct (map r_session_id (results a))"
    by simp
  from selection_no_duplicates [OF d dr random_demo_ok ne, of default_settings 0]
  obtain selected where
    s: "fst (select_sessions_for_analysis default_settings random_demo 0 ?ss (results a))
          = Inr selected"
    and ds: "distinct (ids selected)" and l: "length selected \<le> length ?ss"
    by blast
  from a s have "select_after_detection ascii_str default_settings fs_demo random_demo 0 ?ss
                 = Inr (ids selected)"
    by (simp add: select_after_detection_def)
  moreover from l have "length (ids selected) \<le> 4" by (simp add: ids_def)
  ultimately show ?thesis using d ds random_demo_ok by blast
qed

text \<open>
  C7 as stated fails in its size bound: a population of one session of high
  confidence is selected whole, one session against a target of 0.15.
\<close>

theorem selection_size_counterexample:
  "select_after_detection ascii_str default_settings fs_demo random_demo 0 [session_angry] = Inr [4] \<and>
   \<not> of_nat (length [4 :: nat])
       \<le> ERROR_DETECTION_SAMPLE_RATE default_settings * of_nat (length [session_angry])"
  by (simp add: select_defs pipeline_defs ensemble_defs phrase_defs behavior_defs
        sentiment_defs demo_defs round_defs)
end
